theory Spec2Isabelle
  imports Complex_Main "HOL-Library.Sublist" "HOL-Library.Multiset" "HOL-Library.Log_Nat"
begin

section \<open>Strategy Lab: the dashboard's API routes and panels\<close>

text \<open>
  JavaScript numbers are IEEE doubles. A finite number is a rational (\<open>rat\<close>); a value
  that is not a finite number (\<open>NaN\<close>, \<open>Infinity\<close>, \<open>undefined\<close> used as a number) is
  \<open>None\<close> of \<open>rat option\<close>. The route handlers compute in exact rationals: what is
  shown of them does not depend on rounding. \<open>calculateTotalCombinations\<close>, whose result
  depends on the rounding of a quotient, computes in doubles. The strings of the routes are
  ASCII; the strings that the strategy library searches are sequences of UTF-16 code units.
\<close>

subsection \<open>HTTP plumbing shared by the route handlers\<close>

text \<open>\<open>request.nextUrl.searchParams\<close>: the query string as a list of key/value pairs.\<close>

type_synonym search_params = "(string \<times> string) list"

text \<open>\<open>URLSearchParams.get\<close>: the first value of the key, \<open>null\<close> when there is none.\<close>

fun searchParams_get :: "search_params \<Rightarrow> string \<Rightarrow> string option" where
  "searchParams_get [] key = None"
| "searchParams_get ((k, v) # rest) key = (if k = key then Some v else searchParams_get rest key)"

text \<open>A request the handler sends to the backend with \<open>fetch\<close>.\<close>

record 'p out_request =
  url :: string
  http_method :: string
  req_body :: "'p option"

text \<open>
  What \<open>fetch\<close> gives back: the promise rejects (no connection), or it resolves to a
  response with a status code and a body; \<open>response_json\<close> is \<open>None\<close> when
  \<open>response.json()\<close> rejects or the handler's reads of the parsed value throw.
\<close>

record 'j response =
  response_status :: nat
  response_json :: "'j option"

datatype 'j fetch_result = Rejected | Resolved "'j response"

text \<open>\<open>response.ok\<close>: the status is in the range 200-299.\<close>

definition response_ok :: "'j response \<Rightarrow> bool" where
  "response_ok r = (200 \<le> response_status r \<and> response_status r \<le> 299)"

text \<open>\<open>NextResponse.json(value, { status })\<close>; the status is 200 when none is given.\<close>

datatype 'a next_json = Json 'a | Error string

record 'a NextResponse =
  status :: nat
  payload :: "'a next_json"

definition NextResponse_json :: "'a \<Rightarrow> 'a NextResponse" where
  "NextResponse_json v = \<lparr>status = 200, payload = Json v\<rparr>"

definition NextResponse_error :: "string \<Rightarrow> nat \<Rightarrow> 'a NextResponse" where
  "NextResponse_error msg code = \<lparr>status = code, payload = Error msg\<rparr>"

subsection \<open>Numbers, strings and the sources of randomness and time\<close>

text \<open>
  A number that may be missing or not finite: \<open>None\<close> stands for \<open>undefined\<close>, \<open>NaN\<close>
  and the infinities, which arithmetic hands on (\<open>undefined + 1\<close> is \<open>NaN\<close>). The numbers
  of a backend response are taken to be finite when present.
\<close>

type_synonym number = "rat option"

text \<open>
  Multiplication: a product with a factor that is not finite is not finite
  (\<open>Infinity * 0\<close> is \<open>NaN\<close>).
\<close>

definition js_mul :: "number \<Rightarrow> number \<Rightarrow> number" where
  "js_mul a b = (case (a, b) of (Some x, Some y) \<Rightarrow> Some (x * y) | _ \<Rightarrow> None)"

definition js_add :: "number \<Rightarrow> number \<Rightarrow> number" where
  "js_add a b = (case (a, b) of (Some x, Some y) \<Rightarrow> Some (x + y) | _ \<Rightarrow> None)"

definition js_sub :: "number \<Rightarrow> number \<Rightarrow> number" where
  "js_sub a b = (case (a, b) of (Some x, Some y) \<Rightarrow> Some (x - y) | _ \<Rightarrow> None)"

text \<open>Division: by zero it gives \<open>Infinity\<close> or \<open>NaN\<close>.\<close>

definition js_divide :: "number \<Rightarrow> number \<Rightarrow> number" where
  "js_divide a b =
     (case (a, b) of
        (Some x, Some y) \<Rightarrow> if y = 0 then None else Some (x / y)
      | _ \<Rightarrow> None)"

text \<open>\<open>Math.floor\<close> and \<open>Math.round\<close> (halves go up).\<close>

definition Math_floor :: "rat \<Rightarrow> rat" where
  "Math_floor x = of_int \<lfloor>x\<rfloor>"

definition Math_round :: "rat \<Rightarrow> rat" where
  "Math_round x = of_int \<lfloor>x + 1 / 2\<rfloor>"

text \<open>
  \<open>Math.random()\<close> and \<open>new Date().toISOString()\<close> are inputs of a handler: the \<open>k\<close>-th
  call of \<open>Math.random\<close> during one invocation returns \<open>random k\<close>, the \<open>k\<close>-th reading of
  the clock returns \<open>now k\<close>.
\<close>

type_synonym random_source = "nat \<Rightarrow> rat"

type_synonym clock = "nat \<Rightarrow> string"

text \<open>\<open>String(n)\<close> for a natural number, and \<open>padStart\<close>.\<close>

fun String_nat :: "nat \<Rightarrow> string" where
  "String_nat n =
     (if n < 10 then [char_of (48 + n)] else String_nat (n div 10) @ [char_of (48 + n mod 10)])"

declare String_nat.simps [simp del]

definition padStart :: "string \<Rightarrow> nat \<Rightarrow> char \<Rightarrow> string" where
  "padStart s targetLength c = replicate (targetLength - length s) c @ s"

text \<open>\<open>x.toFixed(2)\<close>: two decimals, the nearest value, halves away from zero.\<close>

definition toFixed2 :: "rat \<Rightarrow> string" where
  "toFixed2 x =
     (let n = nat \<lfloor>\<bar>x\<bar> * 100 + 1 / 2\<rfloor> in
      (if x < 0 then ''-'' else []) @ String_nat (n div 100) @ ''.'' @
        padStart (String_nat (n mod 100)) 2 (CHR ''0''))"

subsection \<open>IEEE doubles\<close>

text \<open>
  Where a result depends on the rounding of JavaScript's arithmetic, a finite number is the
  rational value of a double and every operation rounds its exact result to the nearest
  double, ties to the even significand (53 bits). The exponent range is not bounded:
  overflow to \<open>Infinity\<close> and the subnormal numbers are not modelled.
\<close>

definition pow2 :: "int \<Rightarrow> rat" where
  "pow2 e = (if 0 \<le> e then 2 ^ nat e else 1 / 2 ^ nat (- e))"

text \<open>The binary exponent of a number other than zero: \<open>2 ^ e \<le> \<bar>x\<bar> < 2 ^ (e + 1)\<close>.\<close>

definition exponent :: "rat \<Rightarrow> int" where
  "exponent x =
     (let (p, q) = quotient_of \<bar>x\<bar>; d = bitlen p - bitlen q
      in if pow2 d \<le> \<bar>x\<bar> then d else d - 1)"

definition round_half_even :: "rat \<Rightarrow> int" where
  "round_half_even y =
     (let f = \<lfloor>y\<rfloor>; r = y - of_int f
      in if r < 1 / 2 then f else if 1 / 2 < r then f + 1 else if even f then f else f + 1)"

definition round_double :: "rat \<Rightarrow> rat" where
  "round_double x =
     (if x = 0 then 0
      else let e = exponent x
           in sgn x * of_int (round_half_even (\<bar>x\<bar> * pow2 (52 - e))) * pow2 (e - 52))"

text \<open>\<open>Number(text)\<close> of a decimal numeral: the double nearest to its value.\<close>

definition Number :: "rat \<Rightarrow> rat" where
  "Number decimal = round_double decimal"

text \<open>
  Subtraction, division and multiplication of doubles. Division by zero gives \<open>Infinity\<close> or
  \<open>NaN\<close> (\<open>None\<close>), and a product with a factor that is not finite is not finite.
\<close>

definition double_sub :: "rat \<Rightarrow> rat \<Rightarrow> rat" where
  "double_sub a b = round_double (a - b)"

definition double_div :: "rat \<Rightarrow> rat \<Rightarrow> number" where
  "double_div a b = (if b = 0 then None else Some (round_double (a / b)))"

definition double_mul :: "number \<Rightarrow> number \<Rightarrow> number" where
  "double_mul a b =
     (case (a, b) of (Some x, Some y) \<Rightarrow> Some (round_double (x * y)) | _ \<Rightarrow> None)"

subsection \<open>\<open>DELETE /api/strategies\<close>\<close>

text \<open>
  The handler returns its response and the list of requests it sent to the backend.
  \<open>!id\<close> holds for \<open>null\<close> and for the empty string. The body of the success response
  is \<open>{ success: true }\<close>.
\<close>

definition strategies_DELETE ::
  "string \<Rightarrow> (unit out_request \<Rightarrow> 'j fetch_result) \<Rightarrow> search_params
    \<Rightarrow> bool NextResponse \<times> unit out_request list" where
  "strategies_DELETE BACKEND_URL fetch searchParams =
     (case searchParams_get searchParams ''id'' of
        None \<Rightarrow> (NextResponse_error ''Strategy ID required'' 400, [])
      | Some id' \<Rightarrow>
          if id' = [] then (NextResponse_error ''Strategy ID required'' 400, [])
          else
            let req = \<lparr>url = BACKEND_URL @ ''/api/strategies/'' @ id',
                       http_method = ''DELETE'', req_body = None\<rparr> in
            (case fetch req of
               Rejected \<Rightarrow> (NextResponse_error ''Failed to delete strategy'' 500, [req])
             | Resolved response \<Rightarrow>
                 if \<not> response_ok response \<and> response_status response \<noteq> 204 then
                   (NextResponse_error ''Failed to delete strategy'' 500, [req])
                 else (NextResponse_json True, [req])))"

subsection \<open>\<open>POST /api/backtest\<close>\<close>

text \<open>The parsed request body; a field that is absent is \<open>None\<close>.\<close>

record backtest_body =
  body_strategy :: string
  initialCapital :: "rat option"
  startDate :: "string option"
  endDate :: "string option"

text \<open>The JSON the handler posts to the backend.\<close>

record backtest_payload =
  payload_strategy :: string
  initial_capital :: "rat option"
  start_date :: "string option"
  end_date :: "string option"

text \<open>The backend's answer, as the handler reads it.\<close>

record backend_metrics =
  total_return :: rat
  total_return_amount :: rat
  sharpe_ratio :: rat
  max_drawdown :: rat
  win_rate :: rat
  total_trades :: rat

record equity_point =
  day :: rat
  point_value :: rat

record backtest_data =
  data_id :: string
  data_status :: string
  data_strategy :: string
  data_metrics :: backend_metrics
  equity_curve :: "equity_point list"

text \<open>The handler's answer.\<close>

record backtest_metrics =
  totalReturn :: rat
  totalReturnAmount :: rat
  sharpeRatio :: rat
  maxDrawdown :: rat
  maxDrawdownAmount :: rat
  metrics_winRate :: rat
  metrics_totalTrades :: rat
  winningTrades :: rat
  losingTrades :: rat
  avgWin :: rat
  avgLoss :: rat
  bestTrade :: rat
  worstTrade :: rat
  avgTradeDuration :: rat
  commissionPaid :: rat
  slippageCost :: rat
  profitFactor :: rat
  sortinoRatio :: rat
  calmarRatio :: rat

record trade =
  trade_id :: nat
  entryTime :: string
  exitTime :: string
  side :: string
  entryPrice :: rat
  exitPrice :: rat
  quantity :: rat
  pnl :: rat
  trade_return :: rat

record backtest_result =
  result_id :: string
  result_status :: string
  result_strategy :: string
  result_startDate :: string
  result_endDate :: string
  result_initialCapital :: rat
  metrics :: backtest_metrics
  equityCurve :: "equity_point list"
  trades :: "trade list"

text \<open>\<open>body.initialCapital || 100000\<close>: the default replaces an absent value and zero.\<close>

definition capital_or_default :: "rat option \<Rightarrow> rat" where
  "capital_or_default c = (case c of None \<Rightarrow> 100000 | Some v \<Rightarrow> if v = 0 then 100000 else v)"

text \<open>\<open>body.startDate || '2024-01-01'\<close>: the default replaces an absent and an empty string.\<close>

definition string_or_default :: "string option \<Rightarrow> string \<Rightarrow> string" where
  "string_or_default s d = (case s of None \<Rightarrow> d | Some v \<Rightarrow> if v = [] then d else v)"

definition transform_metrics :: "backtest_body \<Rightarrow> backend_metrics \<Rightarrow> backtest_metrics" where
  "transform_metrics body m =
     \<lparr>totalReturn = total_return m,
      totalReturnAmount = total_return_amount m,
      sharpeRatio = sharpe_ratio m,
      maxDrawdown = max_drawdown m,
      maxDrawdownAmount = max_drawdown m * capital_or_default (initialCapital body),
      metrics_winRate = win_rate m,
      metrics_totalTrades = total_trades m,
      winningTrades = Math_round (total_trades m * win_rate m),
      losingTrades = Math_round (total_trades m * (1 - win_rate m)),
      avgWin = 12540 / 100,
      avgLoss = - (7460 / 100),
      bestTrade = 89050 / 100,
      worstTrade = - (42030 / 100),
      avgTradeDuration = 23,
      commissionPaid = 1250,
      slippageCost = 780,
      profitFactor = 21 / 10,
      sortinoRatio = 245 / 100,
      calmarRatio = 295 / 100\<rparr>"

text \<open>
  The \<open>i\<close>-th mock trade of \<open>Array.from({ length: 10 }, (_, i) => ...)\<close>. Its object
  literal calls \<open>Math.random\<close> six times, in the order of its fields, so trade \<open>i\<close> reads
  the draws \<open>6 * i\<close> to \<open>6 * i + 5\<close>.
\<close>

definition mock_trade :: "random_source \<Rightarrow> nat \<Rightarrow> trade" where
  "mock_trade random i =
     \<lparr>trade_id = i + 1,
      entryTime = ''2024-01-'' @ padStart (String_nat (i + 1)) 2 (CHR ''0'') @ '' 09:'' @
                    padStart (String_nat (30 + i)) 2 (CHR ''0'') @ '':00'',
      exitTime = ''2024-01-'' @ padStart (String_nat (i + 1)) 2 (CHR ''0'') @ '' 10:'' @
                    padStart (String_nat (15 + i)) 2 (CHR ''0'') @ '':00'',
      side = (if random (6 * i) > 1 / 2 then ''long'' else ''short''),
      entryPrice = 17000 + random (6 * i + 1) * 100,
      exitPrice = 17000 + random (6 * i + 2) * 100,
      quantity = Math_floor (random (6 * i + 3) * 5) + 1,
      pnl = (random (6 * i + 4) - 38 / 100) * 500,
      trade_return = (random (6 * i + 5) - 38 / 100) * (2 / 100)\<rparr>"

definition transform_backtest ::
  "random_source \<Rightarrow> backtest_body \<Rightarrow> backtest_data \<Rightarrow> backtest_result" where
  "transform_backtest random body data =
     \<lparr>result_id = data_id data,
      result_status = data_status data,
      result_strategy = data_strategy data,
      result_startDate = string_or_default (startDate body) ''2024-01-01'',
      result_endDate = string_or_default (endDate body) ''2024-01-31'',
      result_initialCapital = capital_or_default (initialCapital body),
      metrics = transform_metrics body (data_metrics data),
      equityCurve = map (\<lambda>point. \<lparr>day = day point, point_value = point_value point\<rparr>)
                      (equity_curve data),
      trades = map (mock_trade random) [0..<10]\<rparr>"

text \<open>
  The handler: \<open>request.json()\<close> may reject (\<open>None\<close>), the fetch may reject, the backend
  may answer with a status outside 200-299 or with a body the handler cannot read; each of
  these ends in the \<open>catch\<close> block.
\<close>

definition backtest_POST ::
  "string \<Rightarrow> (backtest_payload out_request \<Rightarrow> backtest_data fetch_result) \<Rightarrow> random_source
    \<Rightarrow> backtest_body option \<Rightarrow> backtest_result NextResponse" where
  "backtest_POST BACKEND_URL fetch random request_json =
     (case request_json of
        None \<Rightarrow> NextResponse_error ''Failed to run backtest'' 500
      | Some body \<Rightarrow>
          (case fetch \<lparr>url = BACKEND_URL @ ''/api/backtest'', http_method = ''POST'',
                        req_body = Some \<lparr>payload_strategy = body_strategy body,
                                          initial_capital = initialCapital body,
                                          start_date = startDate body,
                                          end_date = endDate body\<rparr>\<rparr> of
             Rejected \<Rightarrow> NextResponse_error ''Failed to run backtest'' 500
           | Resolved response \<Rightarrow>
               if \<not> response_ok response then NextResponse_error ''Failed to run backtest'' 500
               else (case response_json response of
                       None \<Rightarrow> NextResponse_error ''Failed to run backtest'' 500
                     | Some data \<Rightarrow> NextResponse_json (transform_backtest random body data))))"

text \<open>The Trade and EquityPoint sequences of a response (none in an error response).\<close>

definition response_trades :: "backtest_result NextResponse \<Rightarrow> trade list" where
  "response_trades r = (case payload r of Json d \<Rightarrow> trades d | Error _ \<Rightarrow> [])"

definition response_equityCurve :: "backtest_result NextResponse \<Rightarrow> equity_point list" where
  "response_equityCurve r = (case payload r of Json d \<Rightarrow> equityCurve d | Error _ \<Rightarrow> [])"

text \<open>What of a trade does not come from \<open>Math.random\<close>.\<close>

definition trade_schedule :: "trade \<Rightarrow> nat \<times> string \<times> string" where
  "trade_schedule t = (trade_id t, entryTime t, exitTime t)"

text \<open>A request, a backend and sources of randomness to run the handler on.\<close>

definition example_body :: backtest_body where
  "example_body = \<lparr>body_strategy = ''order_book_imbalance'', initialCapital = Some 100000,
                    startDate = Some ''2024-01-01'', endDate = Some ''2024-01-31''\<rparr>"

definition example_data :: backtest_data where
  "example_data =
     \<lparr>data_id = ''bt1'', data_status = ''completed'', data_strategy = ''order_book_imbalance'',
      data_metrics = \<lparr>total_return = 15 / 100, total_return_amount = 15000, sharpe_ratio = 2,
                      max_drawdown = 5 / 100, win_rate = 6 / 10, total_trades = 100\<rparr>,
      equity_curve = [\<lparr>day = 0, point_value = 100000\<rparr>, \<lparr>day = 1, point_value = 100500\<rparr>]\<rparr>"

definition example_fetch :: "backtest_payload out_request \<Rightarrow> backtest_data fetch_result" where
  "example_fetch req = Resolved \<lparr>response_status = 200, response_json = Some example_data\<rparr>"

definition rejecting_fetch :: "backtest_payload out_request \<Rightarrow> backtest_data fetch_result" where
  "rejecting_fetch req = Rejected"

definition random_zero :: random_source where
  "random_zero k = 0"

definition random_high :: random_source where
  "random_high k = 3 / 4"

definition random_late :: random_source where
  "random_late k = (if k < 60 then 0 else 1 / 2)"

subsection \<open>\<open>GET /api/monitor\<close>\<close>

text \<open>
  The backend's monitoring record, as the handler reads it; a field that is absent is
  \<open>None\<close> (\<open>undefined\<close>).
\<close>

record monitor_data =
  data_timestamp :: "string option"
  cpu_usage :: number
  memory_used :: number
  memory_total :: number
  disk_io :: number
  threads_active :: number

text \<open>The summary the handler answers with.\<close>

record cpu_stats =
  usage :: number
  cores :: nat
  temperature :: rat

record memory_stats =
  used :: number
  memory_stats_total :: number
  available :: number
  percentage :: number

record disk_stats =
  disk_read :: number
  disk_write :: number
  disk_stats_total :: number
  iops :: number

record network_stats =
  network_in :: rat
  network_out :: rat
  connections :: rat

record thread_stats =
  active :: number
  thread_stats_total :: nat
  idle :: number

record system_stats =
  cpu :: cpu_stats
  memory :: memory_stats
  disk :: disk_stats
  network :: network_stats
  threads :: thread_stats

record processing_stats =
  ticksProcessed :: rat
  ticksPerSecond :: rat
  orderBookOps :: rat
  avgLatency :: string
  uptime :: rat
  uptimeHours :: rat

record component_states =
  dataIngestion :: string
  orderBookReconstruction :: string
  backtestingEngine :: string
  optimizationEngine :: string
  websocketServer :: string
  database :: string
  cache :: string
  messageQueue :: string

record alert =
  alert_level :: string
  message :: string
  alert_timestamp :: string

record sample =
  time :: nat
  sample_value :: number

record history_stats =
  history_cpu :: "sample list"
  history_memory :: "sample list"
  history_threads :: "sample list"

record monitor_summary =
  summary_timestamp :: "string option"
  system :: system_stats
  processing :: processing_stats
  components :: component_states
  alerts :: "alert list"
  history :: history_stats

text \<open>
  The \<open>try\<close> block after a readable answer of the backend. \<open>Math.random\<close> is called in
  the order of the object literal: draws 0 to 9 for the scalar fields, then twenty draws
  for each of the three histories; the clock is read once.
\<close>

definition transform_monitor :: "random_source \<Rightarrow> clock \<Rightarrow> monitor_data \<Rightarrow> monitor_summary" where
  "transform_monitor random now data =
     \<lparr>summary_timestamp = data_timestamp data,
      system =
        \<lparr>cpu = \<lparr>usage = cpu_usage data, cores = 8, temperature = 55 + random 0 * 10\<rparr>,
         memory = \<lparr>used = memory_used data,
                   memory_stats_total = memory_total data,
                   available = js_sub (memory_total data) (memory_used data),
                   percentage = js_mul (js_divide (memory_used data) (memory_total data)) (Some 100)\<rparr>,
         disk = \<lparr>disk_read = js_mul (disk_io data) (Some (6 / 10)),
                 disk_write = js_mul (disk_io data) (Some (4 / 10)),
                 disk_stats_total = disk_io data,
                 iops = map_option Math_floor (js_mul (disk_io data) (Some 10))\<rparr>,
         network = \<lparr>network_in = random 1 * 100,
                    network_out = random 2 * 50,
                    connections = Math_floor (random 3 * 20) + 10\<rparr>,
         threads = \<lparr>active = threads_active data,
                    thread_stats_total = 16,
                    idle = js_sub (Some 16) (threads_active data)\<rparr>\<rparr>,
      processing =
        \<lparr>ticksProcessed = Math_floor (4530000 + random 4 * 100000),
         ticksPerSecond = Math_floor (10000 + random 5 * 5000),
         orderBookOps = Math_floor (98500 + random 6 * 10000),
         avgLatency = toFixed2 (1 / 2 + random 7 * (1 / 2)),
         uptime = 999 / 10,
         uptimeHours = 275 / 100\<rparr>,
      components =
        \<lparr>dataIngestion = ''operational'',
         orderBookReconstruction = ''operational'',
         backtestingEngine = (if random 8 > 1 / 2 then ''idle'' else ''running''),
         optimizationEngine = (if random 9 > 7 / 10 then ''running'' else ''idle''),
         websocketServer = ''connected'',
         database = ''operational'',
         cache = ''operational'',
         messageQueue = ''operational''\<rparr>,
      alerts = [\<lparr>alert_level = ''info'', message = ''System running optimally'',
                 alert_timestamp = now 0\<rparr>],
      history =
        \<lparr>history_cpu =
           map (\<lambda>i. \<lparr>time = i,
                       sample_value = js_add (cpu_usage data)
                                        (Some ((random (10 + i) - 1 / 2) * 10))\<rparr>) [0..<20],
         history_memory =
           map (\<lambda>i. \<lparr>time = i,
                       sample_value = js_add (memory_used data)
                                        (Some ((random (30 + i) - 1 / 2) * 2))\<rparr>) [0..<20],
         history_threads =
           map (\<lambda>i. \<lparr>time = i,
                       sample_value = js_add (threads_active data)
                                        (Some (Math_floor ((random (50 + i) - 1 / 2) * 4)))\<rparr>)
             [0..<20]\<rparr>\<rparr>"

text \<open>
  The \<open>catch\<close> block: simulated data. Draws 0 to 2 give \<open>cpuUsage\<close>, \<open>memoryUsed\<close> and
  \<open>diskIO\<close>, draws 3 to 14 the scalar fields (the idle threads draw again, apart from the
  active ones), then twenty draws for each history; the clock is read twice.
\<close>

definition simulated_monitor :: "random_source \<Rightarrow> clock \<Rightarrow> monitor_summary" where
  "simulated_monitor random now =
     (let cpuUsage = 35 + random 0 * 20;
          memoryUsed = 10 + random 1 * 5;
          diskIO = 100 + random 2 * 100
      in
      \<lparr>summary_timestamp = Some (now 0),
       system =
         \<lparr>cpu = \<lparr>usage = Some cpuUsage, cores = 8, temperature = 55 + random 3 * 10\<rparr>,
          memory = \<lparr>used = Some memoryUsed,
                    memory_stats_total = Some 32,
                    available = Some (32 - memoryUsed),
                    percentage = Some (memoryUsed / 32 * 100)\<rparr>,
          disk = \<lparr>disk_read = Some (diskIO * (6 / 10)),
                  disk_write = Some (diskIO * (4 / 10)),
                  disk_stats_total = Some diskIO,
                  iops = Some (Math_floor (diskIO * 10))\<rparr>,
          network = \<lparr>network_in = random 4 * 100,
                     network_out = random 5 * 50,
                     connections = Math_floor (random 6 * 20) + 10\<rparr>,
          threads = \<lparr>active = Some (Math_floor (random 7 * 8) + 4),
                     thread_stats_total = 16,
                     idle = Some (16 - Math_floor (random 8 * 8) - 4)\<rparr>\<rparr>,
       processing =
         \<lparr>ticksProcessed = Math_floor (4530000 + random 9 * 100000),
          ticksPerSecond = Math_floor (10000 + random 10 * 5000),
          orderBookOps = Math_floor (98500 + random 11 * 10000),
          avgLatency = toFixed2 (1 / 2 + random 12 * (1 / 2)),
          uptime = 999 / 10,
          uptimeHours = 275 / 100\<rparr>,
       components =
         \<lparr>dataIngestion = ''operational'',
          orderBookReconstruction = ''operational'',
          backtestingEngine = (if random 13 > 1 / 2 then ''idle'' else ''running''),
          optimizationEngine = (if random 14 > 7 / 10 then ''running'' else ''idle''),
          websocketServer = ''connected'',
          database = ''operational'',
          cache = ''operational'',
          messageQueue = ''operational''\<rparr>,
       alerts = [\<lparr>alert_level = ''info'', message = ''System running optimally'',
                  alert_timestamp = now 1\<rparr>],
       history =
         \<lparr>history_cpu =
            map (\<lambda>i. \<lparr>time = i, sample_value = Some (35 + random (15 + i) * 20)\<rparr>) [0..<20],
          history_memory =
            map (\<lambda>i. \<lparr>time = i, sample_value = Some (10 + random (35 + i) * 5)\<rparr>) [0..<20],
          history_threads =
            map (\<lambda>i. \<lparr>time = i, sample_value = Some (Math_floor (random (55 + i) * 8) + 4)\<rparr>)
              [0..<20]\<rparr>\<rparr>)"

text \<open>
  The \<open>try\<close> block as a value: \<open>Inl\<close> is the exception it throws (the fetch rejects,
  the status is outside 200-299, or the body cannot be read), \<open>Inr\<close> the summary it returns.
\<close>

datatype monitor_exception = FetchFailed | BackendReturned nat | UnreadableBody

definition monitor_try ::
  "(unit out_request \<Rightarrow> monitor_data fetch_result) \<Rightarrow> string \<Rightarrow> random_source \<Rightarrow> clock
    \<Rightarrow> monitor_exception + monitor_summary" where
  "monitor_try fetch BACKEND_URL random now =
     (case fetch \<lparr>url = BACKEND_URL @ ''/api/monitor'', http_method = ''GET'', req_body = None\<rparr> of
        Rejected \<Rightarrow> Inl FetchFailed
      | Resolved response \<Rightarrow>
          if \<not> response_ok response then Inl (BackendReturned (response_status response))
          else (case response_json response of
                  None \<Rightarrow> Inl UnreadableBody
                | Some data \<Rightarrow> Inr (transform_monitor random now data)))"

text \<open>The handler: what the \<open>try\<close> block throws is caught and answered with simulated data.\<close>

definition monitor_GET ::
  "(unit out_request \<Rightarrow> monitor_data fetch_result) \<Rightarrow> string \<Rightarrow> random_source \<Rightarrow> clock
    \<Rightarrow> monitor_summary NextResponse" where
  "monitor_GET fetch BACKEND_URL random now =
     (case monitor_try fetch BACKEND_URL random now of
        Inr transformedData \<Rightarrow> NextResponse_json transformedData
      | Inl error \<Rightarrow> NextResponse_json (simulated_monitor random now))"

text \<open>A clock and a backend that cannot be reached, to run the monitor handler on.\<close>

definition example_clock :: clock where
  "example_clock k = ''2024-01-15T10:00:00.000Z''"

definition unreachable_backend :: "unit out_request \<Rightarrow> monitor_data fetch_result" where
  "unreachable_backend req = Rejected"

subsection \<open>The backtest panel: \<open>BacktestConfig\<close> and its form\<close>

text \<open>
  The values of \<open>slippageModel\<close> are strings at run time; the type
  \<open>'fixed' | 'linear' | 'square_root'\<close> is erased, and the handler of the select casts
  \<open>e.target.value as any\<close>.
\<close>

record BacktestConfig =
  config_strategy :: string
  config_startDate :: string
  config_endDate :: string
  config_initialCapital :: rat
  positionSize :: rat
  maxPositions :: rat
  commissionRate :: rat
  slippageModel :: string
  slippageValue :: rat

record BacktestPanel =
  isRunning :: bool
  progress :: nat
  config :: BacktestConfig

text \<open>The state of the component when it is mounted (\<open>useState\<close>).\<close>

definition initial_panel :: BacktestPanel where
  "initial_panel =
     \<lparr>isRunning = False, progress = 0,
      config = \<lparr>config_strategy = ''order_book_imbalance'',
                 config_startDate = ''2024-01-01'',
                 config_endDate = ''2024-01-31'',
                 config_initialCapital = 100000,
                 positionSize = 1,
                 maxPositions = 3,
                 commissionRate = 2 / 10000,
                 slippageModel = ''linear'',
                 slippageValue = 1 / 10000\<rparr>\<rparr>"

text \<open>
  The \<open>option\<close> elements of the two selects. The value of a select is the \<open>value\<close> of
  the option the user picked, so a change event of a select carries one of its options.
\<close>

datatype strategy_option = OrderBookImbalance | BidAskBounce | MomentumBreakout

fun strategy_option_value :: "strategy_option \<Rightarrow> string" where
  "strategy_option_value OrderBookImbalance = ''order_book_imbalance''"
| "strategy_option_value BidAskBounce = ''bid_ask_bounce''"
| "strategy_option_value MomentumBreakout = ''momentum_breakout''"

datatype slippage_option = Fixed | Linear | SquareRoot

fun slippage_option_value :: "slippage_option \<Rightarrow> string" where
  "slippage_option_value Fixed = ''fixed''"
| "slippage_option_value Linear = ''linear''"
| "slippage_option_value SquareRoot = ''square_root''"

text \<open>
  What can happen to the panel: a change of one of its inputs (a number input hands over
  \<open>Number(e.target.value)\<close>), a click on "Run Backtest", and a tick of the interval that
  \<open>handleRunBacktest\<close> starts.
\<close>

datatype panel_event =
    ChangeStrategy strategy_option
  | ChangeInitialCapital rat
  | ChangeStartDate string
  | ChangeEndDate string
  | ChangePositionSize rat
  | ChangeMaxPositions rat
  | ChangeCommissionRate rat
  | ChangeSlippageModel slippage_option
  | ChangeSlippageValue rat
  | ClickRunBacktest
  | IntervalTick

text \<open>
  \<open>setConfig({...config, field: value})\<close> for the inputs. The button is disabled while a
  run is on; the interval adds 2 to the progress until it has reached 100, then clears itself
  and ends the run.
\<close>

fun panel_step :: "BacktestPanel \<Rightarrow> panel_event \<Rightarrow> BacktestPanel" where
  "panel_step p (ChangeStrategy v) =
     p\<lparr>config := (config p)\<lparr>config_strategy := strategy_option_value v\<rparr>\<rparr>"
| "panel_step p (ChangeInitialCapital v) = p\<lparr>config := (config p)\<lparr>config_initialCapital := v\<rparr>\<rparr>"
| "panel_step p (ChangeStartDate v) = p\<lparr>config := (config p)\<lparr>config_startDate := v\<rparr>\<rparr>"
| "panel_step p (ChangeEndDate v) = p\<lparr>config := (config p)\<lparr>config_endDate := v\<rparr>\<rparr>"
| "panel_step p (ChangePositionSize v) = p\<lparr>config := (config p)\<lparr>positionSize := v\<rparr>\<rparr>"
| "panel_step p (ChangeMaxPositions v) = p\<lparr>config := (config p)\<lparr>maxPositions := v\<rparr>\<rparr>"
| "panel_step p (ChangeCommissionRate v) = p\<lparr>config := (config p)\<lparr>commissionRate := v\<rparr>\<rparr>"
| "panel_step p (ChangeSlippageModel v) =
     p\<lparr>config := (config p)\<lparr>slippageModel := slippage_option_value v\<rparr>\<rparr>"
| "panel_step p (ChangeSlippageValue v) = p\<lparr>config := (config p)\<lparr>slippageValue := v\<rparr>\<rparr>"
| "panel_step p ClickRunBacktest =
     (if isRunning p then p else p\<lparr>isRunning := True, progress := 0\<rparr>)"
| "panel_step p IntervalTick =
     (if \<not> isRunning p then p
      else if progress p \<ge> 100 then p\<lparr>isRunning := False, progress := 100\<rparr>
      else p\<lparr>progress := progress p + 2\<rparr>)"

definition panel_after :: "panel_event list \<Rightarrow> BacktestPanel" where
  "panel_after events = foldl panel_step initial_panel events"

text \<open>
  The configurations submitted to a run: the one the panel holds at each click on
  "Run Backtest" that starts a run.
\<close>

fun submitted_configs :: "BacktestPanel \<Rightarrow> panel_event list \<Rightarrow> BacktestConfig list" where
  "submitted_configs p [] = []"
| "submitted_configs p (e # es) =
     (if e = ClickRunBacktest \<and> \<not> isRunning p then [config p] else []) @
       submitted_configs (panel_step p e) es"

subsection \<open>The table \<open>backtest_runs\<close>: the constraint \<open>valid_status\<close>\<close>

text \<open>\<open>CHECK (status IN ('pending', 'running', 'completed', 'failed', 'cancelled'))\<close>\<close>

definition valid_status :: "string \<Rightarrow> bool" where
  "valid_status s = (s \<in> set [''pending'', ''running'', ''completed'', ''failed'', ''cancelled''])"


subsection \<open>The optimization panel: \<open>calculateTotalCombinations\<close>\<close>

text \<open>
  The fields \<open>min\<close>, \<open>max\<close>, \<open>step\<close> and \<open>current\<close> hold doubles: the panel sets them
  with \<open>Number(e.target.value)\<close> of a number input, whose value is finite.
\<close>

record OptimizationParameter =
  param_name :: string
  param_min :: rat
  param_max :: rat
  step :: rat
  current :: rat

text \<open>
  \<open>Math.floor((param.max - param.min) / param.step) + 1\<close>: the difference, the quotient and
  the sum are rounded to doubles; the floor of a double is a double.
\<close>

definition param_steps :: "OptimizationParameter \<Rightarrow> number" where
  "param_steps param =
     map_option (\<lambda>q. round_double (of_int \<lfloor>q\<rfloor> + 1))
       (double_div (double_sub (param_max param) (param_min param)) (step param))"

text \<open>\<open>parameters.reduce((total, param) => total * steps, 1)\<close>\<close>

definition calculateTotalCombinations :: "OptimizationParameter list \<Rightarrow> number" where
  "calculateTotalCombinations parameters =
     foldl (\<lambda>total param. double_mul total (param_steps param)) (Some 1) parameters"

text \<open>
  The number of grid points of a parameter in exact arithmetic, and the parameters on which
  the doubles of the code compute it exactly: integer bounds in order, a positive step that
  divides the range.
\<close>

definition grid_points :: "OptimizationParameter \<Rightarrow> rat" where
  "grid_points p = of_int \<lfloor>(param_max p - param_min p) / step p\<rfloor> + 1"

definition exact_grid :: "OptimizationParameter \<Rightarrow> bool" where
  "exact_grid p =
     (param_min p \<in> \<int> \<and> param_max p \<in> \<int> \<and> param_min p \<le> param_max p \<and> 0 < step p \<and>
      (param_max p - param_min p) / step p \<in> \<int>)"

text \<open>
  Parameters to run the function on: the component's \<open>lookback_period\<close>, a range with a
  step of a quarter, a range without a step, and two ranges typed as 0, 1, 0.1 and as
  0, 0.3, 0.1.
\<close>

definition lookback_period :: OptimizationParameter where
  "lookback_period = \<lparr>param_name = ''lookback_period'', param_min = 10, param_max = 100,
                       step = 10, current = 50\<rparr>"

definition quarter_range :: OptimizationParameter where
  "quarter_range = \<lparr>param_name = ''threshold'', param_min = 0, param_max = 1,
                     step = Number (1 / 4), current = 0\<rparr>"

definition stepless_range :: OptimizationParameter where
  "stepless_range = \<lparr>param_name = ''threshold'', param_min = 0, param_max = 1,
                      step = 0, current = 0\<rparr>"

definition unit_range :: OptimizationParameter where
  "unit_range = \<lparr>param_name = ''threshold'', param_min = 0, param_max = 1,
                  step = Number (1 / 10), current = 0\<rparr>"

definition short_range :: OptimizationParameter where
  "short_range = \<lparr>param_name = ''threshold'', param_min = 0, param_max = Number (3 / 10),
                   step = Number (1 / 10), current = 0\<rparr>"


subsection \<open>The strategy library: \<open>filteredStrategies\<close>\<close>

text \<open>
  A JavaScript string is a sequence of UTF-16 code units. \<open>js\<close> reads an ASCII literal as
  one.
\<close>

type_synonym js_string = "nat list"

definition js :: "string \<Rightarrow> js_string" where
  "js s = map of_char s"

text \<open>
  \<open>String.prototype.toLowerCase\<close> maps the code points of a string by the Unicode
  Character Database of the JavaScript runtime. The database is not part of the repository
  and is a parameter: the lower-case mapping of a code point (one or more code points), and
  the properties Cased and Case_Ignorable, which the one context-dependent mapping reads.
\<close>

record unicode_data =
  lower_mapping :: "nat \<Rightarrow> nat list"
  cased :: "nat \<Rightarrow> bool"
  case_ignorable :: "nat \<Rightarrow> bool"

text \<open>
  The code points of a string (a high surrogate followed by a low one is one code point, any
  other code unit stands for itself), and the code units of a sequence of code points.
\<close>

fun code_points :: "js_string \<Rightarrow> nat list" where
  "code_points (h # l # r) =
     (if 55296 \<le> h \<and> h \<le> 56319 \<and> 56320 \<le> l \<and> l \<le> 57343
      then (65536 + (h - 55296) * 1024 + (l - 56320)) # code_points r
      else h # code_points (l # r))"
| "code_points [h] = [h]"
| "code_points [] = []"

definition code_units :: "nat list \<Rightarrow> js_string" where
  "code_units cs =
     concat (map (\<lambda>c. if 65536 \<le> c
                       then [55296 + (c - 65536) div 1024, 56320 + (c - 65536) mod 1024]
                       else [c]) cs)"

text \<open>
  The condition Final_Sigma reads the context of a capital sigma (U+03A3, 931): it is
  preceded by a cased letter and then case-ignorable characters only, and it is not followed
  by case-ignorable characters and then a cased letter. \<open>cased_follows\<close> looks for a cased
  letter behind case-ignorable characters; for the text before the sigma it is run on the
  reversed text.
\<close>

fun cased_follows :: "unicode_data \<Rightarrow> nat list \<Rightarrow> bool" where
  "cased_follows u [] = False"
| "cased_follows u (c # cs) = (cased u c \<or> (case_ignorable u c \<and> cased_follows u cs))"

text \<open>
  The lower-case mapping of a sequence of code points; \<open>before\<close> holds the code points
  already passed, the last one first. A capital sigma in final position becomes the final
  small sigma (U+03C2, 962); every other code point takes its mapping from the database.
\<close>

fun lower_points :: "unicode_data \<Rightarrow> nat list \<Rightarrow> nat list \<Rightarrow> nat list" where
  "lower_points u before [] = []"
| "lower_points u before (c # after) =
     (if c = 931 \<and> cased_follows u before \<and> \<not> cased_follows u after then [962]
      else lower_mapping u c) @ lower_points u (c # before) after"

definition toLowerCase :: "unicode_data \<Rightarrow> js_string \<Rightarrow> js_string" where
  "toLowerCase u s = code_units (lower_points u [] (code_points s))"

text \<open>\<open>String.prototype.includes\<close>: the needle occurs at some position of the text.\<close>

fun includes_str :: "js_string \<Rightarrow> js_string \<Rightarrow> bool" where
  "includes_str [] needle = (needle = [])"
| "includes_str (c # cs) needle = (prefix needle (c # cs) \<or> includes_str cs needle)"

record performance =
  sharpe :: rat
  winRate :: rat
  totalTrades :: nat

text \<open>
  A strategy of the library. The name and the description are searched and are JavaScript
  strings; the other texts are identifiers in ASCII.
\<close>

record Strategy =
  strategy_id :: string
  name :: js_string
  description :: js_string
  strategy_type :: string
  strategy_status :: string
  lastModified :: string
  strategy_performance :: performance

definition matchesSearch :: "unicode_data \<Rightarrow> Strategy \<Rightarrow> js_string \<Rightarrow> bool" where
  "matchesSearch u strategy searchTerm =
     (includes_str (toLowerCase u (name strategy)) (toLowerCase u searchTerm) \<or>
      includes_str (toLowerCase u (description strategy)) (toLowerCase u searchTerm))"

definition matchesType :: "Strategy \<Rightarrow> string \<Rightarrow> bool" where
  "matchesType strategy selectedType =
     (selectedType = ''all'' \<or> strategy_type strategy = selectedType)"

definition filteredStrategies ::
  "unicode_data \<Rightarrow> Strategy list \<Rightarrow> js_string \<Rightarrow> string \<Rightarrow> Strategy list" where
  "filteredStrategies u strategies searchTerm selectedType =
     filter (\<lambda>strategy. matchesSearch u strategy searchTerm \<and> matchesType strategy selectedType)
       strategies"

text \<open>The mock data of the component.\<close>

definition strategies :: "Strategy list" where
  "strategies =
     [\<lparr>strategy_id = ''1'', name = js ''Order Book Imbalance'',
       description = js ''Trades based on bid-ask volume imbalances'',
       strategy_type = ''order_book'', strategy_status = ''active'',
       lastModified = ''2024-01-15'',
       strategy_performance = \<lparr>sharpe = 18 / 10, winRate = 62 / 100, totalTrades = 1250\<rparr>\<rparr>,
      \<lparr>strategy_id = ''2'', name = js ''Bid-Ask Bounce'',
       description = js ''Mean reversion strategy on bid-ask spread'',
       strategy_type = ''mean_reversion'', strategy_status = ''active'',
       lastModified = ''2024-01-14'',
       strategy_performance = \<lparr>sharpe = 15 / 10, winRate = 58 / 100, totalTrades = 890\<rparr>\<rparr>,
      \<lparr>strategy_id = ''3'', name = js ''Momentum Breakout'',
       description = js ''Captures breakouts with volume confirmation'',
       strategy_type = ''momentum'', strategy_status = ''draft'',
       lastModified = ''2024-01-13'',
       strategy_performance = \<lparr>sharpe = 0, winRate = 0, totalTrades = 0\<rparr>\<rparr>]"

text \<open>
  The reading of "contains the search term case-insensitively", stated without
  \<open>toLowerCase\<close>: some stretch of the text is the term letter by letter, where a letter
  A-Z and its small letter count as the same letter.
\<close>

definition same_letter :: "nat \<Rightarrow> nat \<Rightarrow> bool" where
  "same_letter c d =
     (c = d \<or> (65 \<le> c \<and> c \<le> 90 \<and> d = c + 32) \<or> (65 \<le> d \<and> d \<le> 90 \<and> c = d + 32))"

definition contains_ci :: "js_string \<Rightarrow> js_string \<Rightarrow> bool" where
  "contains_ci hay needle =
     (\<exists>before mid after. hay = before @ mid @ after \<and> list_all2 same_letter mid needle)"

text \<open>
  Strings of Basic Latin (ASCII), the lower-case mapping of Basic Latin, and what it is for a
  database to hold that mapping, as the Unicode Character Database does.
\<close>

definition ascii :: "js_string \<Rightarrow> bool" where
  "ascii s = (\<forall>c \<in> set s. c < 128)"

definition ascii_lower :: "nat \<Rightarrow> nat" where
  "ascii_lower c = (if 65 \<le> c \<and> c \<le> 90 then c + 32 else c)"

definition basic_latin_data :: "unicode_data \<Rightarrow> bool" where
  "basic_latin_data u = (\<forall>c < 128. lower_mapping u c = [ascii_lower c])"

text \<open>
  The entries of the Unicode Character Database for Basic Latin and for the Greek letters
  \<open>U+0391\<close> to \<open>U+03A9\<close> and \<open>U+03B1\<close> to \<open>U+03C9\<close> (other code points are left as
  they are), and a strategy with the Greek name \<open>U+039F U+0394 U+039F U+03A3\<close>.
\<close>

definition greek_data :: unicode_data where
  "greek_data =
     \<lparr>lower_mapping =
        (\<lambda>c. if (65 \<le> c \<and> c \<le> 90) \<or> (913 \<le> c \<and> c \<le> 929) \<or> (931 \<le> c \<and> c \<le> 937)
              then [c + 32] else [c]),
      cased =
        (\<lambda>c. (65 \<le> c \<and> c \<le> 90) \<or> (97 \<le> c \<and> c \<le> 122) \<or> (913 \<le> c \<and> c \<le> 929) \<or>
              (931 \<le> c \<and> c \<le> 937) \<or> (945 \<le> c \<and> c \<le> 969)),
      case_ignorable = (\<lambda>c. c \<in> {39, 46, 58, 94, 96})\<rparr>"

definition odos :: Strategy where
  "odos = \<lparr>strategy_id = ''4'', name = [927, 916, 927, 931], description = js ''Mean reversion'',
           strategy_type = ''mean_reversion'', strategy_status = ''draft'',
           lastModified = ''2024-01-16'',
           strategy_performance = \<lparr>sharpe = 0, winRate = 0, totalTrades = 0\<rparr>\<rparr>"

section \<open>The market-data core: merger and order book engine\<close>

text \<open>
  The sources of the core (tick decoder, validation gate, merger, order book engine, event
  loop) are not among the files of the repository at hand, which hold the dashboard, its API
  routes, the database schema and the documents. The definitions of this section follow the
  specification's text.
\<close>

subsection \<open>Events\<close>

text \<open>
  Modelled from the spec: the market-data types, the Level-2 operations and the two sides of
  a book (the tick decoder's and the validation gate's types are missing).
\<close>

datatype mdt =
  Ask | Bid | Last | DailyHigh | DailyLow | DailyVolume | LastClose | Opening | OpenInterest
  | Settlement | Unknown

datatype operation = Add | Update | Remove

datatype book_side = BidSide | AskSide

text \<open>
  Modelled from the spec: one resting quote (the engine's \<open>OrderBookLevel\<close> is missing).
  A price is a fixed-point decimal with two fractional digits, held as
  the number of hundredths; a size is a 32-bit signed integer, held as an integer.
\<close>

record OrderBookLevel =
  price :: int
  level_size :: int
  market_maker :: "string option"

text \<open>
  Modelled from the spec: the accepted typed event that the Validation Gate hands on (the
  gate is missing). Every
  event carries its timestamp (nanoseconds). A Level-1 event carries its market-data type, a
  price and a volume; a Level-2 event carries the side, the operation, the zero-based depth
  and the quote.
\<close>

datatype event =
    L1Event int mdt int int
  | L2Event int book_side operation nat OrderBookLevel

fun timestamp :: "event \<Rightarrow> int" where
  "timestamp (L1Event ts m p v) = ts"
| "timestamp (L2Event ts s op d lv) = ts"

subsection \<open>The multi-source merger\<close>

text \<open>
  Modelled from the spec: one per-contract source of the missing merger, with the priority it declares (a smaller
  number goes first: the front month before a deferred month) and the events it has not yet
  emitted, in its own order.
\<close>

record contract_source =
  priority :: nat
  pending :: "event list"

text \<open>
  Modelled from the spec: an event of the merged stream (the merger is missing); it keeps the
  priority of the source it came from.
\<close>

type_synonym merged_event = "nat \<times> event"

text \<open>
  Modelled from the spec: the key of the missing merger's k-way merge: the timestamp first,
  then the priority of the source.
\<close>

definition merge_key :: "merged_event \<Rightarrow> int \<times> nat" where
  "merge_key m = (timestamp (snd m), fst m)"

definition key_le :: "int \<times> nat \<Rightarrow> int \<times> nat \<Rightarrow> bool" where
  "key_le a b = (fst a < fst b \<or> (fst a = fst b \<and> snd a \<le> snd b))"

text \<open>
  Modelled from the spec: one step of the missing merger's k-way merge. Among the heads of the sources that
  still have events it takes the one with the least key and advances that source's cursor;
  of two heads with the same key the one of the earlier source goes first (stable). The
  result is \<open>None\<close> when every source is exhausted.
\<close>

fun take_least :: "contract_source list \<Rightarrow> (merged_event \<times> contract_source list) option" where
  "take_least [] = None"
| "take_least (s # ss) =
     (case pending s of
        [] \<Rightarrow> map_option (\<lambda>(m, ss'). (m, s # ss')) (take_least ss)
      | e # es \<Rightarrow>
          (case take_least ss of
             None \<Rightarrow> Some ((priority s, e), s\<lparr>pending := es\<rparr> # ss)
           | Some (m, ss') \<Rightarrow>
               if key_le (merge_key (priority s, e)) (merge_key m)
               then Some ((priority s, e), s\<lparr>pending := es\<rparr> # ss)
               else Some (m, s # ss')))"

text \<open>Modelled from the spec: the number of events the sources still hold.\<close>

definition pending_total :: "contract_source list \<Rightarrow> nat" where
  "pending_total ss = sum_list (map (\<lambda>s. length (pending s)) ss)"

text \<open>
  Modelled from the spec: the merged stream of the missing merger, one least head after the
  other.
\<close>

function merge_sources :: "contract_source list \<Rightarrow> merged_event list" where
  "merge_sources ss =
     (case take_least ss of None \<Rightarrow> [] | Some (m, ss') \<Rightarrow> m # merge_sources ss')"
  by pat_completeness auto
termination
proof (relation "measure pending_total")
  show "wf (measure pending_total)" by simp
next
  fix ss :: "contract_source list" and x m ss'
  assume "take_least ss = Some x" and "(m, ss') = x"
  then have taken: "take_least ss = Some (m, ss')" by simp
  have "pending_total ss = Suc (pending_total ss')" using taken
  proof (induction ss arbitrary: m ss')
    case Nil
    then show ?case by simp
  next
    case (Cons s ss)
    show ?case
    proof (cases "pending s")
      case Nil
      with Cons.prems obtain ss'' where "take_least ss = Some (m, ss'')" and "ss' = s # ss''"
        by auto
      with Cons.IH [of m ss''] show ?thesis
        by (simp add: pending_total_def)
    next
      case (Cons e es)
      show ?thesis
      proof (cases "take_least ss")
        case None
        with Cons Cons.prems show ?thesis
          by (auto simp: pending_total_def)
      next
        case (Some r)
        obtain m2 ss2 where r: "r = (m2, ss2)" by (cases r)
        from Cons.IH [of m2 ss2] Some r have "pending_total ss = Suc (pending_total ss2)"
          by simp
        with Cons Some r Cons.prems show ?thesis
          by (auto simp: pending_total_def split: if_splits)
      qed
    qed
  qed
  then show "(ss', ss) \<in> measure pending_total" by simp
qed

declare merge_sources.simps [simp del]

text \<open>
  Modelled from the spec: the events of a source with the source's priority attached, and
  what "a per-contract ordered event stream" asks of a source: its timestamps do not decrease.
\<close>

definition tagged :: "contract_source \<Rightarrow> merged_event list" where
  "tagged s = map (Pair (priority s)) (pending s)"

definition ordered_source :: "contract_source \<Rightarrow> bool" where
  "ordered_source s = sorted (map timestamp (pending s))"

text \<open>Two contract months of one date, to run the merge on.\<close>

definition front_month :: contract_source where
  "front_month = \<lparr>priority = 0, pending = [L1Event 1 Last 1700025 2, L1Event 5 Last 1700050 1]\<rparr>"

definition deferred_month :: contract_source where
  "deferred_month = \<lparr>priority = 1, pending = [L1Event 1 Last 1710000 4, L1Event 3 Last 1710025 1]\<rparr>"

subsection \<open>The order book\<close>

text \<open>
  Modelled from the spec: the book of the missing Order Book Engine. One side's ladder is
  indexed by depth: slot \<open>d\<close> holds the level
  at depth \<open>d\<close>, or nothing.
\<close>

type_synonym ladder = "OrderBookLevel option list"

record L1Summary =
  last_price :: "int option"
  last_size :: "int option"
  daily_high :: "int option"
  daily_low :: "int option"
  daily_volume :: "int option"
  daily_open :: "int option"
  last_close :: "int option"
  settlement :: "int option"
  open_interest :: "int option"

record OrderBook =
  bids :: ladder
  asks :: ladder
  summary :: L1Summary

definition empty_book :: OrderBook where
  "empty_book =
     \<lparr>bids = [], asks = [],
      summary = \<lparr>last_price = None, last_size = None, daily_high = None, daily_low = None,
                  daily_volume = None, daily_open = None, last_close = None, settlement = None,
                  open_interest = None\<rparr>\<rparr>"

text \<open>Modelled from the spec: the level at a depth of a ladder, if there is one.\<close>

definition level_at :: "ladder \<Rightarrow> nat \<Rightarrow> OrderBookLevel option" where
  "level_at l d = (if d < length l then l ! d else None)"

text \<open>
  Modelled from the spec: Add of the missing engine. The new level goes to \<open>depth\<close>; a level that occupies that
  depth, and with it the deeper ones, moves one position away from the best.
\<close>

definition ladder_add :: "ladder \<Rightarrow> nat \<Rightarrow> OrderBookLevel \<Rightarrow> ladder" where
  "ladder_add l d lv =
     (case level_at l d of
        None \<Rightarrow> (l @ replicate (Suc d - length l) None)[d := Some lv]
      | Some occupant \<Rightarrow> take d l @ Some lv # drop d l)"

text \<open>
  Modelled from the spec: Update of the missing engine. The size of the level at \<open>depth\<close> is replaced, and its
  market maker when the event names one; \<open>None\<close> when no level is at that depth.
\<close>

definition ladder_update :: "ladder \<Rightarrow> nat \<Rightarrow> OrderBookLevel \<Rightarrow> ladder option" where
  "ladder_update l d lv =
     (case level_at l d of
        None \<Rightarrow> None
      | Some old \<Rightarrow>
          Some (l[d := Some (old\<lparr>level_size := level_size lv,
                                  market_maker := (case market_maker lv of
                                                     None \<Rightarrow> market_maker old
                                                   | Some mm \<Rightarrow> Some mm)\<rparr>)]))"

text \<open>
  Modelled from the spec: Remove of the missing engine. The level at \<open>depth\<close> is deleted and the deeper ones
  move one position toward the best; \<open>None\<close> when no level is at that depth.
\<close>

definition ladder_remove :: "ladder \<Rightarrow> nat \<Rightarrow> ladder option" where
  "ladder_remove l d =
     (case level_at l d of
        None \<Rightarrow> None
      | Some old \<Rightarrow> Some (take d l @ drop (Suc d) l))"

text \<open>Modelled from the spec: the levels of a ladder, by depth.\<close>

definition resting :: "ladder \<Rightarrow> OrderBookLevel list" where
  "resting l = concat (map (\<lambda>slot. case slot of None \<Rightarrow> [] | Some lv \<Rightarrow> [lv]) l)"

text \<open>
  Modelled from the spec: the best level of a side of the missing engine's book, from the
  price order: the highest bid
  and the lowest ask; of several levels at the best price the one at the least depth.
\<close>

fun best_level :: "(int \<Rightarrow> int \<Rightarrow> bool) \<Rightarrow> OrderBookLevel list \<Rightarrow> OrderBookLevel option" where
  "best_level better [] = None"
| "best_level better (lv # lvs) =
     (case best_level better lvs of
        None \<Rightarrow> Some lv
      | Some other \<Rightarrow> if better (price other) (price lv) then Some other else Some lv)"

definition best_bid :: "OrderBook \<Rightarrow> OrderBookLevel option" where
  "best_bid b = best_level (\<lambda>p q. q < p) (resting (bids b))"

definition best_ask :: "OrderBook \<Rightarrow> OrderBookLevel option" where
  "best_ask b = best_level (\<lambda>p q. p < q) (resting (asks b))"

text \<open>
  Modelled from the spec: the missing engine's check after a mutation: both sides are
  populated and the best bid is above the best ask.
\<close>

definition crossed :: "OrderBook \<Rightarrow> bool" where
  "crossed b =
     (case (best_bid b, best_ask b) of
        (Some bid, Some ask) \<Rightarrow> price ask < price bid
      | _ \<Rightarrow> False)"

text \<open>
  Modelled from the spec: the missing engine's handling of Level 1. A Level-1 event updates the summary scalar of its market-data
  type (the last trade takes price and size, the daily volume and the open interest take the
  volume, the others the price); the types without a summary scalar change nothing.
\<close>

fun update_summary :: "mdt \<Rightarrow> int \<Rightarrow> int \<Rightarrow> L1Summary \<Rightarrow> L1Summary" where
  "update_summary Last p v s = s\<lparr>last_price := Some p, last_size := Some v\<rparr>"
| "update_summary DailyHigh p v s = s\<lparr>daily_high := Some p\<rparr>"
| "update_summary DailyLow p v s = s\<lparr>daily_low := Some p\<rparr>"
| "update_summary DailyVolume p v s = s\<lparr>daily_volume := Some v\<rparr>"
| "update_summary Opening p v s = s\<lparr>daily_open := Some p\<rparr>"
| "update_summary LastClose p v s = s\<lparr>last_close := Some p\<rparr>"
| "update_summary Settlement p v s = s\<lparr>settlement := Some p\<rparr>"
| "update_summary OpenInterest p v s = s\<lparr>open_interest := Some v\<rparr>"
| "update_summary Ask p v s = s"
| "update_summary Bid p v s = s"
| "update_summary Unknown p v s = s"

text \<open>Modelled from the spec: reading and writing the ladder of one side of the book.\<close>

definition side_ladder :: "book_side \<Rightarrow> OrderBook \<Rightarrow> ladder" where
  "side_ladder s b = (case s of BidSide \<Rightarrow> bids b | AskSide \<Rightarrow> asks b)"

definition set_side_ladder :: "book_side \<Rightarrow> ladder \<Rightarrow> OrderBook \<Rightarrow> OrderBook" where
  "set_side_ladder s l b = (case s of BidSide \<Rightarrow> b\<lparr>bids := l\<rparr> | AskSide \<Rightarrow> b\<lparr>asks := l\<rparr>)"

text \<open>
  Modelled from the spec: the mutation an event asks of the missing engine, before the check; \<open>None\<close> when
  an Update or a Remove finds no level at its depth.
\<close>

fun mutate :: "event \<Rightarrow> OrderBook \<Rightarrow> OrderBook option" where
  "mutate (L1Event ts m p v) b = Some (b\<lparr>summary := update_summary m p v (summary b)\<rparr>)"
| "mutate (L2Event ts s Add d lv) b =
     Some (set_side_ladder s (ladder_add (side_ladder s b) d lv) b)"
| "mutate (L2Event ts s Update d lv) b =
     map_option (\<lambda>l. set_side_ladder s l b) (ladder_update (side_ladder s b) d lv)"
| "mutate (L2Event ts s Remove d lv) b =
     map_option (\<lambda>l. set_side_ladder s l b) (ladder_remove (side_ladder s b) d)"

text \<open>
  Modelled from the spec: the validation policy, the book integrity faults and the result of
  \<open>apply\<close> (the engine's types are missing).
\<close>

datatype ValidationPolicy = Strict | Lenient

datatype BookIntegrityFault = StaleUpdateFault | CrossedBookFault

datatype apply_result = Success | Fault BookIntegrityFault

text \<open>
  Modelled from the spec: \<open>apply(event)\<close> of the missing Order Book Engine. It returns the book after the call and success
  or the fault. An Update or Remove without a level at its depth leaves the book as it is and
  raises \<open>StaleUpdateFault\<close>. After a mutation the book is checked; when it is crossed the
  call raises \<open>CrossedBookFault\<close>, and under \<open>Lenient\<close> the mutation is rolled back.
\<close>

definition apply_event :: "ValidationPolicy \<Rightarrow> event \<Rightarrow> OrderBook \<Rightarrow> OrderBook \<times> apply_result" where
  "apply_event policy ev b =
     (case mutate ev b of
        None \<Rightarrow> (b, Fault StaleUpdateFault)
      | Some b' \<Rightarrow>
          if crossed b' then
            (case policy of
               Strict \<Rightarrow> (b', Fault CrossedBookFault)
             | Lenient \<Rightarrow> (b, Fault CrossedBookFault))
          else (b', Success))"

text \<open>
  Modelled from the spec: the error taxonomy of the missing core. \<open>StaleUpdateFault\<close> is
  never fatal,
  \<open>CrossedBookFault\<close> is fatal under \<open>Strict\<close>.
\<close>

fun fatal :: "ValidationPolicy \<Rightarrow> BookIntegrityFault \<Rightarrow> bool" where
  "fatal policy StaleUpdateFault = False"
| "fatal Strict CrossedBookFault = True"
| "fatal Lenient CrossedBookFault = False"

subsection \<open>The event loop's replay of the stream\<close>

text \<open>
  Modelled from the spec: the states of a run of the missing Backtest Event Loop,
  \<open>Idle \<rightarrow> Running \<rightarrow> {Completed | Aborted | Cancelled}\<close>.
\<close>

datatype run_state = Idle | Running | Completed | Aborted BookIntegrityFault | Cancelled

text \<open>
  Modelled from the spec: what the missing loop takes in, the next event of the stream or the
  cancellation signal, and what it holds of a run: its state, the book and the faults
  recorded for the Integrity Reporter.
\<close>

datatype loop_input = Next event | CancelSignal

record replay =
  state :: run_state
  book :: OrderBook
  faults :: "BookIntegrityFault list"

definition start_replay :: replay where
  "start_replay = \<lparr>state = Running, book = empty_book, faults = []\<rparr>"

text \<open>
  Modelled from the spec: the missing event loop over the stream, as far as the book is
  concerned (the
  strategy's decisions and the fills read the book and do not write it). Every event is
  applied; a fault is recorded; a fatal fault ends the run as \<open>Aborted\<close>, a cancellation
  signal seen between two events ends it as \<open>Cancelled\<close>, the end of the stream as
  \<open>Completed\<close>.
\<close>

fun replay_loop :: "ValidationPolicy \<Rightarrow> loop_input list \<Rightarrow> replay \<Rightarrow> replay" where
  "replay_loop policy [] r = r\<lparr>state := Completed\<rparr>"
| "replay_loop policy (CancelSignal # rest) r = r\<lparr>state := Cancelled\<rparr>"
| "replay_loop policy (Next ev # rest) r =
     (case apply_event policy ev (book r) of
        (b', Success) \<Rightarrow> replay_loop policy rest (r\<lparr>book := b'\<rparr>)
      | (b', Fault f) \<Rightarrow>
          if fatal policy f then r\<lparr>state := Aborted f, book := b', faults := faults r @ [f]\<rparr>
          else replay_loop policy rest (r\<lparr>book := b', faults := faults r @ [f]\<rparr>))"

text \<open>
  Modelled from the spec: the checkpoints of a replay, the book after each event of a stream
  that the missing loop applies without a fatal fault.
\<close>

fun checkpoints :: "ValidationPolicy \<Rightarrow> event list \<Rightarrow> OrderBook \<Rightarrow> OrderBook list" where
  "checkpoints policy [] b = []"
| "checkpoints policy (ev # evs) b =
     (case apply_event policy ev b of
        (b', Success) \<Rightarrow> b' # checkpoints policy evs b'
      | (b', Fault f) \<Rightarrow> if fatal policy f then [] else b' # checkpoints policy evs b')"

text \<open>Quotes and a short stream to run the engine on: a bid, an ask above it, a bid above the ask.\<close>

definition bid_5 :: OrderBookLevel where
  "bid_5 = \<lparr>price = 1700025, level_size = 5, market_maker = None\<rparr>"

definition ask_3 :: OrderBookLevel where
  "ask_3 = \<lparr>price = 1700050, level_size = 3, market_maker = None\<rparr>"

definition bid_high :: OrderBookLevel where
  "bid_high = \<lparr>price = 1700100, level_size = 1, market_maker = None\<rparr>"

definition example_events :: "event list" where
  "example_events =
     [L2Event 1 BidSide Add 0 bid_5, L2Event 2 AskSide Add 0 ask_3, L2Event 3 BidSide Add 0 bid_high]"

definition quoted_book :: OrderBook where
  "quoted_book = empty_book\<lparr>bids := [Some bid_5], asks := [Some ask_3]\<rparr>"

subsection \<open>The backtest run and its result\<close>

text \<open>
  Modelled from the spec: the faults and errors of the error taxonomy (the core that raises
  them is missing). A validation fault is a record-level defect found by the Validation
  Gate; a source error or an ambiguous rollover comes from the stages before the loop; a
  strategy error is a failure of the strategy's decision function.
\<close>

datatype ValidationFault =
  NullRequiredField | NegativeVolume | MissingOperationForL2 | UnexpectedOperationForL1
  | DepthOutOfRange | NonMonotonicTimestampForSource

datatype SourceError = SourceIOError | SourceFormatError | RolloverAmbiguityError

datatype RunError =
  Source SourceError | Validation ValidationFault | BookIntegrity BookIntegrityFault
  | StrategyError

text \<open>
  Modelled from the spec: the state machine of a run of the missing Backtest Event Loop,
  \<open>Idle \<rightarrow> Running \<rightarrow> {Completed | Aborted | Cancelled}\<close>; an aborted run carries its
  reason.
\<close>

datatype RunStatus =
  StatusIdle | StatusRunning | StatusCompleted | StatusAborted RunError | StatusCancelled

text \<open>
  Modelled from the spec: what the missing loop pulls from the stages before it, one item
  at a time: an accepted event, a record the Validation Gate found faulty, a failure of a
  source or of the rollover selection, or the external cancellation signal, which is
  observed between two events.
\<close>

datatype pulled =
  Accepted event | Faulty ValidationFault | Failed SourceError | CancelRequested

text \<open>
  Modelled from the spec: the structured result of a run, which is also the state the
  missing loop works on: the status, the book, the results (the Trade and EquityPoint
  history with position and cash, from which the metrics are computed), the faults counted
  for the Integrity Reporter, and the number of items of the stream fully processed.
\<close>

record 'a backtest_run_state =
  run_status :: RunStatus
  run_book :: OrderBook
  results :: 'a
  counters :: "RunError list"
  processed :: nat

text \<open>
  Modelled from the spec: the strategy's turn after an event has been applied. At its own
  cadence the strategy decides on the book and its position, and a decision other than Hold
  is filled and appended to the history; the spec leaves the strategy, the fill and the cost
  model open, so the turn is a parameter: it maps the event, the book and the results so far
  to the new results, or fails (\<open>None\<close>, a \<open>StrategyError\<close>).
\<close>

type_synonym 'a strategy = "event \<Rightarrow> OrderBook \<Rightarrow> 'a \<Rightarrow> 'a option"

text \<open>Modelled from the spec: a run before it starts, with the results of the initial capital.\<close>

definition idle_run :: "'a \<Rightarrow> 'a backtest_run_state" where
  "idle_run initial =
     \<lparr>run_status = StatusIdle, run_book = empty_book, results = initial, counters = [],
      processed = 0\<rparr>"

text \<open>
  Modelled from the spec: the missing loop's update of the Order Book Engine for one event.
  A fault is counted; the error is returned when the fault is fatal under the policy.
\<close>

definition apply_to_run ::
  "ValidationPolicy \<Rightarrow> event \<Rightarrow> 'a backtest_run_state
    \<Rightarrow> 'a backtest_run_state \<times> RunError option" where
  "apply_to_run policy ev r =
     (case apply_event policy ev (run_book r) of
        (b', Success) \<Rightarrow> (r\<lparr>run_book := b'\<rparr>, None)
      | (b', Fault f) \<Rightarrow>
          (r\<lparr>run_book := b', counters := counters r @ [BookIntegrity f]\<rparr>,
           if fatal policy f then Some (BookIntegrity f) else None))"

text \<open>
  Modelled from the spec: the missing Backtest Event Loop. The end of the stream completes
  the run; the cancellation signal cancels it; a source error aborts it; a faulty record
  aborts it under \<open>Strict\<close> and is counted and dropped under \<open>Lenient\<close>; an accepted event
  is applied to the book, a fatal integrity fault aborts the run, and otherwise the strategy
  takes its turn, whose failure aborts the run.
\<close>

fun run_loop ::
  "ValidationPolicy \<Rightarrow> 'a strategy \<Rightarrow> pulled list \<Rightarrow> 'a backtest_run_state
    \<Rightarrow> 'a backtest_run_state" where
  "run_loop policy strategy [] r = r\<lparr>run_status := StatusCompleted\<rparr>"
| "run_loop policy strategy (CancelRequested # rest) r = r\<lparr>run_status := StatusCancelled\<rparr>"
| "run_loop policy strategy (Failed e # rest) r = r\<lparr>run_status := StatusAborted (Source e)\<rparr>"
| "run_loop policy strategy (Faulty vf # rest) r =
     (case policy of
        Strict \<Rightarrow> r\<lparr>run_status := StatusAborted (Validation vf),
                     counters := counters r @ [Validation vf]\<rparr>
      | Lenient \<Rightarrow> run_loop policy strategy rest
                     (r\<lparr>counters := counters r @ [Validation vf], processed := Suc (processed r)\<rparr>))"
| "run_loop policy strategy (Accepted ev # rest) r =
     (case apply_to_run policy ev r of
        (r', Some e) \<Rightarrow> r'\<lparr>run_status := StatusAborted e\<rparr>
      | (r', None) \<Rightarrow>
          (case strategy ev (run_book r') (results r') of
             None \<Rightarrow> r'\<lparr>run_status := StatusAborted StrategyError\<rparr>
           | Some results' \<Rightarrow>
               run_loop policy strategy rest
                 (r'\<lparr>results := results', processed := Suc (processed r')\<rparr>)))"

text \<open>
  Modelled from the spec: \<open>run\<close> of the missing Backtest Event Loop: the run leaves
  \<open>Idle\<close> for \<open>Running\<close> and the loop takes over; what it returns is the result the
  caller receives.
\<close>

definition run_backtest ::
  "ValidationPolicy \<Rightarrow> 'a strategy \<Rightarrow> 'a \<Rightarrow> pulled list \<Rightarrow> 'a backtest_run_state" where
  "run_backtest policy strategy initial stream =
     run_loop policy strategy stream ((idle_run initial)\<lparr>run_status := StatusRunning\<rparr>)"

text \<open>
  Modelled from the spec: the reason an item of the stream gives for an abort, if it gives
  one.
\<close>

fun abort_cause :: "ValidationPolicy \<Rightarrow> pulled \<Rightarrow> RunError \<Rightarrow> bool" where
  "abort_cause policy (Failed se) e = (e = Source se)"
| "abort_cause policy (Faulty vf) e = (policy = Strict \<and> e = Validation vf)"
| "abort_cause policy (Accepted ev) e =
     (e = StrategyError \<or> (\<exists>f. e = BookIntegrity f \<and> fatal policy f))"
| "abort_cause policy CancelRequested e = False"

text \<open>
  A strategy and a stream to run the loop on: the strategy notes the timestamp of every
  event and fails on a Level-1 event of unknown type; the stream holds a faulty record, a
  stale Remove and a cancellation signal.
\<close>

definition example_strategy :: "int list strategy" where
  "example_strategy ev b seen =
     (case ev of L1Event ts Unknown p v \<Rightarrow> None | _ \<Rightarrow> Some (seen @ [timestamp ev]))"

definition example_stream :: "pulled list" where
  "example_stream =
     [Accepted (L2Event 1 BidSide Add 0 bid_5), Faulty NegativeVolume,
      Accepted (L2Event 3 BidSide Remove 4 bid_5), CancelRequested,
      Accepted (L2Event 5 AskSide Add 0 ask_3)]"

text \<open>
  The names the table \<open>backtest_runs\<close> gives to the states of a run: its constraint
  \<open>valid_status\<close> admits \<open>pending\<close>, \<open>running\<close>, \<open>completed\<close>, \<open>failed\<close> and
  \<open>cancelled\<close>; a run that has not started is pending and an aborted run has failed.
\<close>

fun status_column :: "RunStatus \<Rightarrow> string" where
  "status_column StatusIdle = ''pending''"
| "status_column StatusRunning = ''running''"
| "status_column StatusCompleted = ''completed''"
| "status_column (StatusAborted e) = ''failed''"
| "status_column StatusCancelled = ''cancelled''"

section \<open>Properties\<close>

lemma searchParams_get_absent:
  "key \<notin> fst ` set ps \<Longrightarrow> searchParams_get ps key = None"
  by (induction ps) auto


subsection \<open>\<open>DELETE /api/strategies\<close> without an id\<close>

text \<open>
  C8. For every DELETE request whose query string has no \<open>id\<close> parameter, the handler
  answers with status 400 and the error message "Strategy ID required", and it sends no
  request to the backend.
\<close>

theorem delete_without_id:
  "''id'' \<notin> fst ` set searchParams \<Longrightarrow>
     strategies_DELETE BACKEND_URL fetch searchParams =
       (\<lparr>status = 400, payload = Error ''Strategy ID required''\<rparr>, [])"
  by (simp add: strategies_DELETE_def searchParams_get_absent NextResponse_error_def)

theorem delete_without_id_witness:
  "''id'' \<notin> fst ` set [(''page'', ''2'')] \<and>
   strategies_DELETE ''http://localhost:8001'' (\<lambda>r. (Rejected :: unit fetch_result)) [(''page'', ''2'')] =
       (\<lparr>status = 400, payload = Error ''Strategy ID required''\<rparr>, [])"
  using delete_without_id [of "[(''page'', ''2'')]" "''http://localhost:8001''" "\<lambda>r. (Rejected :: unit fetch_result)"]
  by simp

subsection \<open>The number of parameter combinations\<close>

lemma round_half_even_of_int: "round_half_even (of_int m) = m"
  by (simp add: round_half_even_def)

lemma exponent_of_int:
  assumes "0 < n"
  shows "exponent (of_int n) = bitlen n - 1"
proof -
  have "\<bar>of_int n :: rat\<bar> = Rat.of_int n"
    using assms by (simp add: Rat.of_int_def)
  then have q: "quotient_of \<bar>of_int n :: rat\<bar> = (n, 1)"
    by (simp only: quotient_of_int)
  have b1: "bitlen 1 = 1" by (simp add: bitlen_alt_def)
  from bitlen_bounds [OF assms] have lo: "2 ^ nat (bitlen n - 1) \<le> n" by simp
  have nn: "0 \<le> bitlen n - 1" using assms by (simp add: bitlen_alt_def)
  have "pow2 (bitlen n - 1) = of_int (2 ^ nat (bitlen n - 1))"
    using nn by (simp add: pow2_def)
  also have "\<dots> \<le> of_int n" using lo by (simp only: of_int_le_iff)
  finally have "pow2 (bitlen n - 1) \<le> \<bar>of_int n :: rat\<bar>" using assms by simp
  then show ?thesis
    by (simp add: exponent_def q b1)
qed

text \<open>A positive integer below \<open>2 ^ 53\<close> is a double: rounding leaves it as it is.\<close>

lemma round_double_of_pos_int:
  assumes "0 < n" and "n < 2 ^ 53"
  shows "round_double (of_int n) = of_int n"
proof -
  define e where "e = bitlen n - 1"
  have ex: "exponent (of_int n) = e"
    using exponent_of_int [OF assms(1)] by (simp add: e_def)
  from bitlen_bounds [OF assms(1)] have lo: "2 ^ nat e \<le> n" by (simp add: e_def)
  have "(2::int) ^ nat e < 2 ^ 53" using lo assms(2) by linarith
  then have "nat e < 53" by (rule power_less_imp_less_exp [of "2::int", rotated]) simp
  then have le: "e \<le> 52" by linarith
  define k where "k = nat (52 - e)"
  have k: "52 - e = int k" using le by (simp add: k_def)
  have p1: "pow2 (52 - e) = 2 ^ k" by (simp add: pow2_def k)
  have p2: "pow2 (e - 52) = 1 / 2 ^ k"
  proof (cases "k = 0")
    case True
    then have "e - 52 = 0" using k by linarith
    with True show ?thesis by (simp add: pow2_def)
  next
    case False
    then have "e - 52 < 0" using k by linarith
    moreover have "nat (- (e - 52)) = k" using k by linarith
    ultimately show ?thesis by (simp add: pow2_def)
  qed
  have "\<bar>of_int n :: rat\<bar> * pow2 (52 - e) = of_int (n * 2 ^ k)"
    using assms(1) by (simp add: p1)
  then have r: "round_half_even (\<bar>of_int n :: rat\<bar> * pow2 (52 - e)) = n * 2 ^ k"
    by (simp only: round_half_even_of_int)
  have nz: "(of_int n :: rat) \<noteq> 0" using assms(1) by simp
  have "round_double (of_int n) =
      sgn (of_int n :: rat) * of_int (round_half_even (\<bar>of_int n :: rat\<bar> * pow2 (52 - e))) *
        pow2 (e - 52)"
    unfolding round_double_def ex Let_def using nz by (simp only: if_False)
  also have "\<dots> = sgn (of_int n :: rat) * of_int (n * 2 ^ k) * (1 / 2 ^ k)"
    by (simp only: r p2)
  also have "\<dots> = of_int n"
    using assms(1) by simp
  finally show ?thesis .
qed

lemma round_double_0: "round_double 0 = 0"
  by (simp add: round_double_def)

lemma round_double_of_nonneg_int:
  "0 \<le> n \<Longrightarrow> n < 2 ^ 53 \<Longrightarrow> round_double (of_int n) = of_int n"
  using round_double_of_pos_int [of n] round_double_0 by (cases "n = 0") auto

lemma round_double_Ints:
  assumes "x \<in> \<int>" and "0 \<le> x" and "x < 2 ^ 53"
  shows "round_double x = x"
proof -
  from assms(1) obtain n where x: "x = of_int n" by (auto elim: Ints_cases)
  from assms(2) x have n0: "0 \<le> n" by simp
  have "(of_int n :: rat) < of_int (2 ^ 53)" using assms(3) x by simp
  then have n53: "n < 2 ^ 53" by (simp only: of_int_less_iff)
  from round_double_of_nonneg_int [OF n0 n53] x show ?thesis by simp
qed

lemma double_mul_simps:
  "double_mul None b = None" "double_mul a None = None"
  "double_mul (Some x) (Some y) = Some (round_double (x * y))"
  by (simp_all add: double_mul_def split: option.splits)

lemma foldl_double_mul_None:
  "foldl (\<lambda>total param. double_mul total (param_steps param)) None ps = None"
  by (induction ps) (simp_all add: double_mul_simps)

lemma param_steps_zero: "step p = 0 \<Longrightarrow> param_steps p = None"
  by (simp add: param_steps_def double_div_def)

lemma zero_step_not_finite:
  "\<exists>p \<in> set ps. step p = 0 \<Longrightarrow>
   foldl (\<lambda>total param. double_mul total (param_steps param)) a ps = None"
proof (induction ps arbitrary: a)
  case Nil
  then show ?case by simp
next
  case (Cons p ps)
  show ?case
  proof (cases "step p = 0")
    case True
    then show ?thesis
      by (simp add: param_steps_zero double_mul_simps foldl_double_mul_None)
  next
    case False
    with Cons.prems have "\<exists>p \<in> set ps. step p = 0" by simp
    from Cons.IH [OF this] show ?thesis by simp
  qed
qed

lemma grid_points_ge_1: "exact_grid p \<Longrightarrow> 1 \<le> grid_points p"
  by (simp add: exact_grid_def grid_points_def)

lemma grid_points_Ints: "grid_points p \<in> \<int>"
  by (simp add: grid_points_def)

lemma param_steps_exact:
  assumes "exact_grid p" and "param_max p - param_min p < 2 ^ 53" and "grid_points p < 2 ^ 53"
  shows "param_steps p = Some (grid_points p)"
proof -
  let ?d = "param_max p - param_min p"
  let ?q = "?d / step p"
  from assms(1) have d: "?d \<in> \<int>" "0 \<le> ?d" and s: "0 < step p" and q: "?q \<in> \<int>"
    by (simp_all add: exact_grid_def)
  have sub: "double_sub (param_max p) (param_min p) = ?d"
    unfolding double_sub_def by (rule round_double_Ints [OF d assms(2)])
  have q0: "0 \<le> ?q" using d(2) s by simp
  have fl: "of_int \<lfloor>?q\<rfloor> = ?q" using q by (auto elim: Ints_cases)
  have "?q < grid_points p" by (simp add: grid_points_def fl)
  with assms(3) have q53: "?q < 2 ^ 53" by linarith
  have quot: "double_div ?d (step p) = Some ?q"
    using s round_double_Ints [OF q q0 q53] by (simp add: double_div_def)
  have "round_double (grid_points p) = grid_points p"
    using grid_points_Ints grid_points_ge_1 [OF assms(1)] assms(3)
    by (intro round_double_Ints) simp_all
  then show ?thesis
    by (simp add: param_steps_def sub quot grid_points_def)
qed

lemma prod_list_ge_1: "\<forall>x \<in> set xs. (1::rat) \<le> x \<Longrightarrow> 1 \<le> prod_list xs"
proof (induction xs)
  case Nil
  then show ?case by simp
next
  case (Cons x xs)
  then have "1 \<le> x" "1 \<le> prod_list xs" by simp_all
  then have "1 * 1 \<le> x * prod_list xs" by (intro mult_mono) simp_all
  then show ?case by simp
qed

lemma foldl_exact:
  assumes "\<forall>p \<in> set ps. exact_grid p \<and> param_max p - param_min p < 2 ^ 53"
    and "a \<in> \<int>" and "1 \<le> a" and "a * prod_list (map grid_points ps) < 2 ^ 53"
  shows "foldl (\<lambda>total param. double_mul total (param_steps param)) (Some a) ps =
           Some (a * prod_list (map grid_points ps))"
  using assms
proof (induction ps arbitrary: a)
  case Nil
  then show ?case by simp
next
  case (Cons p ps)
  from Cons.prems(1) have p: "exact_grid p" "param_max p - param_min p < 2 ^ 53"
    and rest: "\<forall>p \<in> set ps. exact_grid p \<and> param_max p - param_min p < 2 ^ 53"
    by simp_all
  let ?r = "prod_list (map grid_points ps)"
  have r1: "1 \<le> ?r" using rest by (intro prod_list_ge_1) (simp add: grid_points_ge_1)
  have g1: "1 \<le> grid_points p" by (rule grid_points_ge_1 [OF p(1)])
  have bound: "a * (grid_points p * ?r) < 2 ^ 53" using Cons.prems(4) by simp
  have a0: "0 \<le> a" using Cons.prems(3) by simp
  have "a * grid_points p * 1 \<le> a * grid_points p * ?r"
    using a0 g1 r1 by (intro mult_left_mono) simp_all
  with bound have ag: "a * grid_points p < 2 ^ 53" by (simp add: mult.assoc)
  have "1 * grid_points p \<le> a * grid_points p"
    using Cons.prems(3) g1 by (intro mult_right_mono) simp_all
  with ag have g53: "grid_points p < 2 ^ 53" by simp
  have steps: "param_steps p = Some (grid_points p)"
    by (rule param_steps_exact [OF p g53])
  have agI: "a * grid_points p \<in> \<int>" using Cons.prems(2) grid_points_Ints by simp
  have ag1: "1 \<le> a * grid_points p"
    using Cons.prems(3) g1 mult_mono [of 1 a 1 "grid_points p"] by simp
  have rd: "round_double (a * grid_points p) = a * grid_points p"
    using agI ag1 ag by (intro round_double_Ints) simp_all
  have "foldl (\<lambda>total param. double_mul total (param_steps param)) (Some a) (p # ps) =
        foldl (\<lambda>total param. double_mul total (param_steps param)) (Some (a * grid_points p)) ps"
    by (simp add: steps double_mul_simps rd)
  also have "\<dots> = Some (a * grid_points p * ?r)"
    using bound by (intro Cons.IH [OF rest agI ag1]) (simp add: mult.assoc)
  finally show ?case by (simp add: mult.assoc)
qed

text \<open>
  C9 as stated, "for every list of parameters the function returns the product of
  \<open>floor((max - min) / step) + 1\<close>", fails: for the parameter 0, 1, 0.1 the code returns
  11, where the quotient of the stored doubles is below 10 and the product is 10; for the
  parameter typed as 0, 0.3, 0.1 the code returns 3, where the decimal values give 4.
\<close>

theorem calculateTotalCombinations_rounds:
  "calculateTotalCombinations [unit_range] = Some 11 \<and>
   of_int \<lfloor>(param_max unit_range - param_min unit_range) / step unit_range\<rfloor> + 1 = (10 :: rat) \<and>
   calculateTotalCombinations [short_range] = Some 3 \<and>
   of_int \<lfloor>((3 / 10 - 0) / (1 / 10) :: rat)\<rfloor> + 1 = (4 :: rat)"
  by code_simp

text \<open>
  C9, amended. \<open>calculateTotalCombinations\<close> returns 1 for the empty parameter list, and
  a value that is not a finite number when the step of some parameter is zero. For every
  list of parameters with integer bounds \<open>min \<le> max\<close> less than \<open>2 ^ 53\<close> apart and a
  positive step that divides \<open>max - min\<close>, whose product of \<open>floor((max - min) / step) + 1\<close>
  is below \<open>2 ^ 53\<close>, it returns exactly that product. On other parameters it returns the
  product as double arithmetic rounds it, which can be another number.
\<close>

theorem calculateTotalCombinations_exact:
  "calculateTotalCombinations [] = Some 1 \<and>
   ((\<exists>p \<in> set parameters. step p = 0) \<longrightarrow> calculateTotalCombinations parameters = None) \<and>
   ((\<forall>p \<in> set parameters. exact_grid p \<and> param_max p - param_min p < 2 ^ 53) \<and>
    (\<Prod>p\<leftarrow>parameters. of_int \<lfloor>(param_max p - param_min p) / step p\<rfloor> + 1) < (2 ^ 53 :: rat) \<longrightarrow>
      calculateTotalCombinations parameters =
        Some (\<Prod>p\<leftarrow>parameters. of_int \<lfloor>(param_max p - param_min p) / step p\<rfloor> + 1))"
proof -
  have e: "calculateTotalCombinations [] = Some 1"
    by (simp add: calculateTotalCombinations_def)
  have z: "(\<exists>p \<in> set parameters. step p = 0) \<longrightarrow> calculateTotalCombinations parameters = None"
    using zero_step_not_finite by (simp add: calculateTotalCombinations_def)
  have x: "calculateTotalCombinations parameters =
        Some (\<Prod>p\<leftarrow>parameters. of_int \<lfloor>(param_max p - param_min p) / step p\<rfloor> + 1)"
    if ok: "\<forall>p \<in> set parameters. exact_grid p \<and> param_max p - param_min p < 2 ^ 53"
      and small: "(\<Prod>p\<leftarrow>parameters. of_int \<lfloor>(param_max p - param_min p) / step p\<rfloor> + 1)
                    < (2 ^ 53 :: rat)"
  proof -
    have eq: "(\<Prod>p\<leftarrow>parameters. of_int \<lfloor>(param_max p - param_min p) / step p\<rfloor> + 1) =
              prod_list (map grid_points parameters)"
      by (simp add: grid_points_def [abs_def])
    from foldl_exact [OF ok, of 1] small eq show ?thesis
      by (simp add: calculateTotalCombinations_def)
  qed
  from e z x show ?thesis by blast
qed

lemma Number_quarter: "Number (1 / 4) = 1 / 4"
  by code_simp

theorem calculateTotalCombinations_exact_witness:
  "calculateTotalCombinations [lookback_period, quarter_range] = Some 50 \<and>
   calculateTotalCombinations [lookback_period, stepless_range] = None"
proof -
  have grids: "\<forall>p \<in> set [lookback_period, quarter_range].
      exact_grid p \<and> param_max p - param_min p < 2 ^ 53"
    by (simp add: exact_grid_def lookback_period_def quarter_range_def Number_quarter)
  have product:
    "(\<Prod>p\<leftarrow>[lookback_period, quarter_range].
        of_int \<lfloor>(param_max p - param_min p) / step p\<rfloor> + 1) = (50 :: rat)"
    by (simp add: lookback_period_def quarter_range_def Number_quarter)
  have small: "(50 :: rat) < 2 ^ 53" by simp
  have zero: "\<exists>p \<in> set [lookback_period, stepless_range]. step p = 0"
    by (simp add: stepless_range_def)
  from calculateTotalCombinations_exact [of "[lookback_period, quarter_range]"] grids product small
  have one: "calculateTotalCombinations [lookback_period, quarter_range] = Some 50"
    by (simp only:)
  from calculateTotalCombinations_exact [of "[lookback_period, stepless_range]"] zero
  have two: "calculateTotalCombinations [lookback_period, stepless_range] = None"
    by blast
  from one two show ?thesis by blast
qed


subsection \<open>The strategy library's filter\<close>

lemma code_points_ascii: "ascii s \<Longrightarrow> code_points s = s"
  by (induction s rule: code_points.induct) (auto simp: ascii_def)

lemma code_units_small: "\<forall>c \<in> set cs. c < 65536 \<Longrightarrow> code_units cs = cs"
  by (induction cs) (auto simp: code_units_def)

lemma lower_points_ascii:
  "basic_latin_data u \<Longrightarrow> ascii s \<Longrightarrow> lower_points u before s = map ascii_lower s"
  by (induction s arbitrary: before) (auto simp: ascii_def basic_latin_data_def)

lemma ascii_lower_small: "c < 128 \<Longrightarrow> ascii_lower c < 65536"
  by (simp add: ascii_lower_def)

text \<open>On ASCII strings \<open>toLowerCase\<close> moves the letters A-Z to a-z and nothing else.\<close>

lemma toLowerCase_ascii:
  assumes "basic_latin_data u" and "ascii s"
  shows "toLowerCase u s = map ascii_lower s"
proof -
  have "\<forall>c \<in> set (map ascii_lower s). c < 65536"
    using assms(2) by (auto simp: ascii_def dest!: ascii_lower_small)
  then show ?thesis
    by (simp add: toLowerCase_def code_points_ascii [OF assms(2)]
        lower_points_ascii [OF assms] code_units_small)
qed

lemma toLowerCase_Nil: "toLowerCase u [] = []"
  by (simp add: toLowerCase_def code_units_def)

lemma includes_str_iff:
  "includes_str hay needle \<longleftrightarrow> (\<exists>before after. hay = before @ needle @ after)"
proof (induction hay)
  case Nil
  then show ?case by auto
next
  case (Cons c cs)
  show ?case
  proof
    assume "includes_str (c # cs) needle"
    then consider "prefix needle (c # cs)" | "includes_str cs needle" by auto
    then show "\<exists>before after. c # cs = before @ needle @ after"
    proof cases
      case 1
      then obtain after where "c # cs = needle @ after" by (auto simp: prefix_def)
      then have "c # cs = [] @ needle @ after" by simp
      then show ?thesis by blast
    next
      case 2
      with Cons.IH obtain before after where "cs = before @ needle @ after" by blast
      then have "c # cs = (c # before) @ needle @ after" by simp
      then show ?thesis by blast
    qed
  next
    assume "\<exists>before after. c # cs = before @ needle @ after"
    then obtain before after where eq: "c # cs = before @ needle @ after" by blast
    show "includes_str (c # cs) needle"
    proof (cases before)
      case Nil
      with eq have "prefix needle (c # cs)" by (simp add: prefix_def)
      then show ?thesis by simp
    next
      case (Cons b bs)
      with eq have "cs = bs @ needle @ after" by simp
      with Cons.IH have "includes_str cs needle" by blast
      then show ?thesis by simp
    qed
  qed
qed

lemma includes_str_Nil: "includes_str hay []"
  by (induction hay) auto

text \<open>Two ASCII characters have the same lower case exactly when they are the same letter.\<close>

lemma ascii_lower_eq_iff:
  "c < 128 \<Longrightarrow> d < 128 \<Longrightarrow> ascii_lower c = ascii_lower d \<longleftrightarrow> same_letter c d"
  by (auto simp: ascii_lower_def same_letter_def)

lemma map_lower_eq_iff:
  "ascii m \<Longrightarrow> ascii n \<Longrightarrow>
   map ascii_lower m = map ascii_lower n \<longleftrightarrow> list_all2 same_letter m n"
proof (induction m arbitrary: n)
  case Nil
  then show ?case by auto
next
  case (Cons c m)
  show ?case
  proof (cases n)
    case Nil
    then show ?thesis by simp
  next
    case (Cons d n')
    with Cons.prems have "c < 128" "d < 128" "ascii m" "ascii n'" by (simp_all add: ascii_def)
    with Cons.IH [of n'] Cons show ?thesis by (simp add: ascii_lower_eq_iff)
  qed
qed

lemma includes_lower_iff:
  assumes "ascii hay" and "ascii needle"
  shows "includes_str (map ascii_lower hay) (map ascii_lower needle) \<longleftrightarrow> contains_ci hay needle"
proof
  assume "includes_str (map ascii_lower hay) (map ascii_lower needle)"
  then obtain a b where "map ascii_lower hay = a @ map ascii_lower needle @ b"
    by (auto simp: includes_str_iff)
  then obtain xa xm xb where split: "hay = xa @ xm @ xb"
    and eq: "map ascii_lower xm = map ascii_lower needle"
    by (metis map_eq_append_conv)
  from split assms(1) have "ascii xm" by (simp add: ascii_def)
  with eq assms(2) have "list_all2 same_letter xm needle" by (simp add: map_lower_eq_iff)
  with split show "contains_ci hay needle" unfolding contains_ci_def by blast
next
  assume "contains_ci hay needle"
  then obtain a m b where split: "hay = a @ m @ b" and rel: "list_all2 same_letter m needle"
    unfolding contains_ci_def by blast
  from split assms(1) have "ascii m" by (simp add: ascii_def)
  with rel assms(2) have "map ascii_lower m = map ascii_lower needle"
    by (simp add: map_lower_eq_iff)
  with split
  have "map ascii_lower hay = map ascii_lower a @ map ascii_lower needle @ map ascii_lower b"
    by simp
  then show "includes_str (map ascii_lower hay) (map ascii_lower needle)"
    unfolding includes_str_iff by blast
qed

text \<open>
  C10 as stated, "for every search term the filter returns exactly the strategies whose name
  or description contains it case-insensitively", fails outside ASCII: the name
  \<open>U+039F U+0394 U+039F U+03A3\<close> contains the search term \<open>U+03A3\<close> (capital sigma) as
  it is, and the filter does not return the strategy, because \<open>toLowerCase\<close> turns the
  sigma at the end of the name into the final small sigma and the sigma of the term into the
  small sigma.
\<close>

theorem final_sigma_not_found:
  "contains_ci (name odos) [931] \<and> includes_str (name odos) [931] \<and>
   filteredStrategies greek_data [odos] [931] ''all'' = [] \<and>
   toLowerCase greek_data (name odos) = [959, 948, 959, 962] \<and>
   toLowerCase greek_data [931] = [963]"
proof -
  have c: "contains_ci (name odos) [931]"
    unfolding contains_ci_def
    by (rule exI [of _ "[927, 916, 927]"], rule exI [of _ "[931]"], rule exI [of _ "[]"])
       (simp add: odos_def same_letter_def)
  have l1: "toLowerCase greek_data (name odos) = [959, 948, 959, 962]"
    by (simp add: toLowerCase_def odos_def greek_data_def code_units_def)
  have l2: "toLowerCase greek_data [931] = [963]"
    by (simp add: toLowerCase_def greek_data_def code_units_def)
  have l3: "toLowerCase greek_data (description odos) = js ''mean reversion''"
    by (simp add: toLowerCase_def odos_def greek_data_def code_units_def js_def)
  have i: "includes_str (name odos) [931]" by (simp add: odos_def)
  have f: "filteredStrategies greek_data [odos] [931] ''all'' = []"
    by (simp add: filteredStrategies_def matchesSearch_def l1 l2 l3 js_def)
  from c i f l1 l2 show ?thesis by blast
qed

text \<open>
  C10, amended. For every type selection and every search term in ASCII, over strategies
  whose names and descriptions are in ASCII, the filter returns exactly the strategies whose
  name or description contains the search term case-insensitively (letter by letter, a
  letter A-Z and its small letter being the same) and whose type is the selected one (any
  type when "all" is selected), in their order. With an empty search term and type "all" it
  returns every strategy, whatever the strings are. Outside ASCII the result is what the
  Unicode lower-case mapping of the runtime makes of the strings.
\<close>

theorem filteredStrategies_ascii:
  assumes "basic_latin_data u" and "ascii searchTerm"
    and "\<forall>s \<in> set strats. ascii (name s) \<and> ascii (description s)"
  shows "filteredStrategies u strats searchTerm selectedType =
           filter (\<lambda>s. (contains_ci (name s) searchTerm \<or> contains_ci (description s) searchTerm) \<and>
                       (selectedType = ''all'' \<or> strategy_type s = selectedType)) strats \<and>
         filteredStrategies u' strats' [] ''all'' = strats'"
proof -
  have "matchesSearch u s searchTerm \<longleftrightarrow>
          contains_ci (name s) searchTerm \<or> contains_ci (description s) searchTerm"
    if "s \<in> set strats" for s
  proof -
    from that assms(3) have a: "ascii (name s)" "ascii (description s)" by simp_all
    show ?thesis
      by (simp add: matchesSearch_def toLowerCase_ascii [OF assms(1)] a assms(2)
          includes_lower_iff)
  qed
  then have first: "filteredStrategies u strats searchTerm selectedType =
           filter (\<lambda>s. (contains_ci (name s) searchTerm \<or> contains_ci (description s) searchTerm) \<and>
                       (selectedType = ''all'' \<or> strategy_type s = selectedType)) strats"
    unfolding filteredStrategies_def matchesType_def by (intro filter_cong) simp_all
  have second: "filteredStrategies u' strats' [] ''all'' = strats'"
    by (simp add: filteredStrategies_def matchesSearch_def matchesType_def toLowerCase_Nil
        includes_str_Nil)
  from first second show ?thesis by blast
qed

lemma greek_data_basic_latin: "basic_latin_data greek_data"
  by (simp add: basic_latin_data_def greek_data_def ascii_lower_def)

lemma lower_js:
  "toLowerCase greek_data (js ''BID-ASK'') = js ''bid-ask''"
  "toLowerCase greek_data (js ''Order Book Imbalance'') = js ''order book imbalance''"
  "toLowerCase greek_data (js ''Trades based on bid-ask volume imbalances'') =
     js ''trades based on bid-ask volume imbalances''"
  "toLowerCase greek_data (js ''Bid-Ask Bounce'') = js ''bid-ask bounce''"
  "toLowerCase greek_data (js ''Mean reversion strategy on bid-ask spread'') =
     js ''mean reversion strategy on bid-ask spread''"
  "toLowerCase greek_data (js ''Momentum Breakout'') = js ''momentum breakout''"
  "toLowerCase greek_data (js ''Captures breakouts with volume confirmation'') =
     js ''captures breakouts with volume confirmation''"
  by (simp_all add: toLowerCase_def greek_data_def code_units_def js_def)

lemma filteredStrategies_example:
  "map strategy_id (filteredStrategies greek_data strategies (js ''BID-ASK'') ''all'') =
     [''1'', ''2'']"
  by (simp add: filteredStrategies_def matchesSearch_def matchesType_def strategies_def lower_js)
     (simp add: js_def)

theorem filteredStrategies_ascii_witness:
  "map strategy_id (filteredStrategies greek_data strategies (js ''BID-ASK'') ''all'') =
     [''1'', ''2''] \<and>
   filteredStrategies greek_data strategies (js ''BID-ASK'') ''all'' =
     filter (\<lambda>s. contains_ci (name s) (js ''BID-ASK'') \<or> contains_ci (description s) (js ''BID-ASK''))
       strategies \<and>
   filteredStrategies greek_data [odos] [] ''all'' = [odos]"
proof -
  have needle: "ascii (js ''BID-ASK'')"
    by (simp add: ascii_def js_def)
  have data: "\<forall>s \<in> set strategies. ascii (name s) \<and> ascii (description s)"
    by (simp add: strategies_def ascii_def js_def)
  from filteredStrategies_ascii [OF greek_data_basic_latin needle data, of "''all''" greek_data "[odos]"]
    filteredStrategies_example
  show ?thesis by simp
qed

subsection \<open>\<open>POST /api/backtest\<close>: what of a run is repeatable\<close>

lemma example_run:
  "backtest_POST u example_fetch random (Some example_body) =
     NextResponse_json (transform_backtest random example_body example_data)"
  by (simp add: backtest_POST_def example_fetch_def response_ok_def)

lemma sides_zero: "map side (response_trades (backtest_POST ''http://localhost:8001'' example_fetch random_zero (Some example_body))) = replicate 10 ''short''"
  by (simp add: example_run NextResponse_json_def response_trades_def transform_backtest_def
      mock_trade_def random_zero_def upt_rec numeral_nat)

text \<open>
  C1 as stated, "two invocations on the same input produce identical Trade and EquityPoint
  sequences", fails: the same request and the same answer of the backend give different
  trades when \<open>Math.random\<close> draws differently.
\<close>

theorem backtest_run_not_deterministic:
  "response_trades (backtest_POST ''http://localhost:8001'' example_fetch random_zero (Some example_body))
     \<noteq> response_trades (backtest_POST ''http://localhost:8001'' example_fetch random_high (Some example_body))"
proof
  assume eq: "response_trades (backtest_POST ''http://localhost:8001'' example_fetch random_zero (Some example_body))
     = response_trades (backtest_POST ''http://localhost:8001'' example_fetch random_high (Some example_body))"
  have "map side (response_trades (backtest_POST ''http://localhost:8001'' example_fetch random_zero (Some example_body)))
     = map side (response_trades (backtest_POST ''http://localhost:8001'' example_fetch random_high (Some example_body)))"
    using eq by simp
  then show False
    by (simp add: example_run NextResponse_json_def response_trades_def transform_backtest_def
      mock_trade_def random_zero_def random_high_def upt_rec numeral_nat)
qed

lemma mock_trade_schedule: "trade_schedule (mock_trade random i) = trade_schedule (mock_trade random' i)"
  by (simp add: trade_schedule_def mock_trade_def)

lemma mock_trade_cong:
  assumes "\<forall>k<60. random k = random' k" and "i < 10"
  shows "mock_trade random i = mock_trade random' i"
proof -
  have "6 * i < 60" "6 * i + 1 < 60" "6 * i + 2 < 60" "6 * i + 3 < 60" "6 * i + 4 < 60" "6 * i + 5 < 60"
    using assms(2) by simp_all
  with assms(1) show ?thesis by (simp add: mock_trade_def)
qed

lemma mock_trades_cong:
  assumes "\<forall>k<60. random k = random' k"
  shows "map (mock_trade random) [0..<10] = map (mock_trade random') [0..<10]"
  by (rule map_cong [OF refl]) (simp add: mock_trade_cong [OF assms])

lemma transform_backtest_fixed:
  "metrics (transform_backtest random body data) = metrics (transform_backtest random' body data)"
  "equityCurve (transform_backtest random body data) = equityCurve (transform_backtest random' body data)"
  "map trade_schedule (trades (transform_backtest random body data)) =
   map trade_schedule (trades (transform_backtest random' body data))"
  "length (trades (transform_backtest random body data)) = 10"
  by (simp_all add: transform_backtest_def mock_trade_schedule)

lemma backtest_POST_cases:
  "backtest_POST u fetch random rq = NextResponse_error ''Failed to run backtest'' 500 \<and>
   backtest_POST u fetch random' rq = NextResponse_error ''Failed to run backtest'' 500 \<or>
   (\<exists>body data. backtest_POST u fetch random rq = NextResponse_json (transform_backtest random body data) \<and>
                backtest_POST u fetch random' rq = NextResponse_json (transform_backtest random' body data))"
  by (auto simp: backtest_POST_def split: option.splits fetch_result.splits)

lemma transform_backtest_cong:
  assumes "\<forall>k<60. random k = random' k"
  shows "transform_backtest random body data = transform_backtest random' body data"
  by (simp add: transform_backtest_def mock_trades_cong [OF assms])

text \<open>
  C1, amended. For a fixed request and a fixed answer of the backend, two invocations of the
  handler return the same status, whatever \<open>Math.random\<close> draws. When the handler answers
  with a result (status 200), the result holds exactly ten trades, and the two invocations
  return the same metrics, the same EquityPoint sequence and trades with the same ids, entry
  times and exit times; the side, prices, quantity, pnl and return of the ten mock trades are
  computed from sixty draws of \<open>Math.random\<close>. When it answers with an error, both
  invocations return status 500 and the message "Failed to run backtest", with no metrics,
  EquityPoints or trades. Two invocations whose sixty draws agree return the same response.
\<close>

theorem backtest_POST_determined:
  "status (backtest_POST u fetch random rq) = status (backtest_POST u fetch random' rq) \<and>
   map_next_json metrics (payload (backtest_POST u fetch random rq)) =
     map_next_json metrics (payload (backtest_POST u fetch random' rq)) \<and>
   response_equityCurve (backtest_POST u fetch random rq) =
     response_equityCurve (backtest_POST u fetch random' rq) \<and>
   map trade_schedule (response_trades (backtest_POST u fetch random rq)) =
     map trade_schedule (response_trades (backtest_POST u fetch random' rq)) \<and>
   ((\<forall>k<60. random k = random' k) \<longrightarrow>
      backtest_POST u fetch random rq = backtest_POST u fetch random' rq) \<and>
   (\<forall>d. payload (backtest_POST u fetch random rq) = Json d \<longrightarrow>
      status (backtest_POST u fetch random rq) = 200 \<and> length (trades d) = 10 \<and>
      (\<exists>d'. payload (backtest_POST u fetch random' rq) = Json d' \<and> length (trades d') = 10 \<and>
         metrics d' = metrics d \<and> equityCurve d' = equityCurve d \<and>
         map trade_schedule (trades d') = map trade_schedule (trades d))) \<and>
   (\<forall>msg. payload (backtest_POST u fetch random rq) = Error msg \<longrightarrow>
      backtest_POST u fetch random rq = \<lparr>status = 500, payload = Error ''Failed to run backtest''\<rparr> \<and>
      backtest_POST u fetch random' rq = \<lparr>status = 500, payload = Error ''Failed to run backtest''\<rparr>)"
proof -
  consider
    (failed) "backtest_POST u fetch random rq = NextResponse_error ''Failed to run backtest'' 500"
      "backtest_POST u fetch random' rq = NextResponse_error ''Failed to run backtest'' 500"
  | (answered) body data where
      "backtest_POST u fetch random rq = NextResponse_json (transform_backtest random body data)"
      "backtest_POST u fetch random' rq = NextResponse_json (transform_backtest random' body data)"
    using backtest_POST_cases [of u fetch random rq random'] by blast
  then show ?thesis
  proof cases
    case failed
    then show ?thesis by (simp add: NextResponse_error_def)
  next
    case answered
    then show ?thesis
      by (simp add: NextResponse_json_def response_equityCurve_def response_trades_def
          transform_backtest_fixed transform_backtest_cong)
  qed
qed

theorem backtest_POST_determined_witness:
  "backtest_POST ''http://localhost:8001'' example_fetch random_zero (Some example_body) =
   backtest_POST ''http://localhost:8001'' example_fetch random_late (Some example_body) \<and>
   payload (backtest_POST ''http://localhost:8001'' example_fetch random_zero (Some example_body)) =
     Json (transform_backtest random_zero example_body example_data) \<and>
   length (trades (transform_backtest random_zero example_body example_data)) = 10 \<and>
   payload (backtest_POST ''http://localhost:8001'' rejecting_fetch random_zero (Some example_body)) =
     Error ''Failed to run backtest'' \<and>
   backtest_POST ''http://localhost:8001'' rejecting_fetch random_high (Some example_body) =
     \<lparr>status = 500, payload = Error ''Failed to run backtest''\<rparr>"
proof -
  have agree: "\<forall>k<60. random_zero k = random_late k"
    by (simp add: random_zero_def random_late_def)
  have answered:
    "payload (backtest_POST ''http://localhost:8001'' example_fetch random_zero (Some example_body)) =
       Json (transform_backtest random_zero example_body example_data)"
    by (simp add: example_run NextResponse_json_def)
  have failed:
    "payload (backtest_POST ''http://localhost:8001'' rejecting_fetch random_zero (Some example_body)) =
       Error ''Failed to run backtest''"
    by (simp add: backtest_POST_def rejecting_fetch_def NextResponse_error_def)
  from backtest_POST_determined
    [of "''http://localhost:8001''" example_fetch random_zero "Some example_body" random_late]
    agree answered
  have one: "backtest_POST ''http://localhost:8001'' example_fetch random_zero (Some example_body) =
      backtest_POST ''http://localhost:8001'' example_fetch random_late (Some example_body)"
    and ten: "length (trades (transform_backtest random_zero example_body example_data)) = 10"
    by blast+
  from backtest_POST_determined
    [of "''http://localhost:8001''" rejecting_fetch random_zero "Some example_body" random_high]
    failed
  have two: "backtest_POST ''http://localhost:8001'' rejecting_fetch random_high (Some example_body) =
     \<lparr>status = 500, payload = Error ''Failed to run backtest''\<rparr>"
    by blast
  from one answered ten failed two show ?thesis by blast
qed

subsection \<open>\<open>GET /api/monitor\<close> always answers with a summary\<close>

text \<open>
  C7. The monitoring summary handler never raises: for every behaviour of the backend it
  answers with status 200 and a summary, and whenever its \<open>try\<close> block throws (the fetch
  fails, the backend answers with an error status or an unreadable body) the summary is the
  simulated one.
\<close>

theorem monitor_GET_never_raises:
  "(\<exists>summary. monitor_GET fetch u random now = \<lparr>status = 200, payload = Json summary\<rparr>) \<and>
   (\<forall>e. monitor_try fetch u random now = Inl e \<longrightarrow>
      monitor_GET fetch u random now = \<lparr>status = 200, payload = Json (simulated_monitor random now)\<rparr>)"
  by (cases "monitor_try fetch u random now") (simp_all add: monitor_GET_def NextResponse_json_def)

theorem monitor_GET_never_raises_witness:
  "monitor_try unreachable_backend ''http://localhost:8001'' random_zero example_clock = Inl FetchFailed \<and>
   monitor_GET unreachable_backend ''http://localhost:8001'' random_zero example_clock =
     \<lparr>status = 200, payload = Json (simulated_monitor random_zero example_clock)\<rparr>"
proof -
  have h: "monitor_try unreachable_backend ''http://localhost:8001'' random_zero example_clock = Inl FetchFailed"
    by (simp add: monitor_try_def unreachable_backend_def)
  with monitor_GET_never_raises [of unreachable_backend "''http://localhost:8001''" random_zero example_clock]
  show ?thesis by simp
qed

lemma simulated_example:
  "avgLatency (processing (simulated_monitor random_zero example_clock)) = ''0.50'' \<and>
   active (threads (system (simulated_monitor random_zero example_clock))) = Some 4"
  by code_simp

subsection \<open>The slippage model of the backtest panel\<close>

lemma panel_step_slippage:
  "slippageModel (config p) \<in> {''fixed'', ''linear'', ''square_root''} \<Longrightarrow>
   slippageModel (config (panel_step p e)) \<in> {''fixed'', ''linear'', ''square_root''}"
  by (cases e; cases "(case e of ChangeSlippageModel v \<Rightarrow> v | _ \<Rightarrow> Fixed)") auto

lemma foldl_panel_step_slippage:
  "slippageModel (config p) \<in> {''fixed'', ''linear'', ''square_root''} \<Longrightarrow>
   slippageModel (config (foldl panel_step p es)) \<in> {''fixed'', ''linear'', ''square_root''}"
proof (induction es arbitrary: p)
  case Nil
  then show ?case by simp
next
  case (Cons e es)
  from Cons.IH [OF panel_step_slippage [OF Cons.prems]] show ?case by simp
qed

lemma submitted_configs_slippage:
  "slippageModel (config p) \<in> {''fixed'', ''linear'', ''square_root''} \<Longrightarrow>
   c \<in> set (submitted_configs p es) \<Longrightarrow> slippageModel c \<in> {''fixed'', ''linear'', ''square_root''}"
proof (induction es arbitrary: p)
  case Nil
  then show ?case by simp
next
  case (Cons e es)
  from Cons.prems(2) consider "c = config p" | "c \<in> set (submitted_configs (panel_step p e) es)"
    by (auto split: if_splits)
  then show ?case
  proof cases
    case 1
    with Cons.prems(1) show ?thesis by simp
  next
    case 2
    with Cons.IH [OF panel_step_slippage [OF Cons.prems(1)]] show ?thesis by blast
  qed
qed

text \<open>
  C6. The slippage model ranges over exactly the three values \<open>fixed\<close>, \<open>linear\<close> and
  \<open>square_root\<close>: these are the values of the select's options, the configuration of the
  panel carries one of them after every sequence of events, so does every configuration
  submitted by a click on "Run Backtest", and each of the three can be chosen.
\<close>

theorem slippage_model_three_choices:
  "range slippage_option_value = {''fixed'', ''linear'', ''square_root''} \<and>
   slippageModel (config (panel_after events)) \<in> {''fixed'', ''linear'', ''square_root''} \<and>
   (\<forall>c \<in> set (submitted_configs initial_panel events).
      slippageModel c \<in> {''fixed'', ''linear'', ''square_root''}) \<and>
   (\<forall>v. slippageModel (config (panel_after (events @ [ChangeSlippageModel v]))) = slippage_option_value v)"
proof -
  have init: "slippageModel (config initial_panel) \<in> {''fixed'', ''linear'', ''square_root''}"
    by (simp add: initial_panel_def)
  have r: "range slippage_option_value = {''fixed'', ''linear'', ''square_root''}"
  proof
    show "range slippage_option_value \<subseteq> {''fixed'', ''linear'', ''square_root''}"
    proof
      fix x assume "x \<in> range slippage_option_value"
      then obtain v where "x = slippage_option_value v" by blast
      then show "x \<in> {''fixed'', ''linear'', ''square_root''}" by (cases v) simp_all
    qed
    have "slippage_option_value Fixed = ''fixed''" "slippage_option_value Linear = ''linear''"
      "slippage_option_value SquareRoot = ''square_root''" by simp_all
    then show "{''fixed'', ''linear'', ''square_root''} \<subseteq> range slippage_option_value"
      by (metis empty_subsetI insert_subset rangeI)
  qed
  show ?thesis
    using r foldl_panel_step_slippage [OF init] submitted_configs_slippage [OF init]
    by (simp add: panel_after_def)
qed

theorem slippage_model_three_choices_witness:
  "submitted_configs initial_panel [ChangeSlippageModel SquareRoot, ClickRunBacktest] \<noteq> [] \<and>
   map slippageModel (submitted_configs initial_panel [ChangeSlippageModel SquareRoot, ClickRunBacktest])
     = [''square_root'']"
  using slippage_model_three_choices [of "[ChangeSlippageModel SquareRoot, ClickRunBacktest]"]
  by (simp add: initial_panel_def)



subsection \<open>The k-way merge\<close>

lemma key_le_refl: "key_le a a"
  by (simp add: key_le_def)

lemma key_le_trans: "key_le a b \<Longrightarrow> key_le b c \<Longrightarrow> key_le a c"
  by (auto simp: key_le_def)

lemma key_le_total: "\<not> key_le a b \<Longrightarrow> key_le b a"
  by (auto simp: key_le_def)

lemma take_least_None: "take_least ss = None \<Longrightarrow> concat (map tagged ss) = []"
  by (induction ss) (auto simp: tagged_def split: list.splits option.splits if_splits)

lemma take_least_mset:
  "take_least ss = Some (m, ss') \<Longrightarrow>
   mset (concat (map tagged ss)) = add_mset m (mset (concat (map tagged ss')))"
proof (induction ss arbitrary: m ss')
  case Nil
  then show ?case by simp
next
  case (Cons s ss)
  show ?case
  proof (cases "pending s")
    case Nil
    with Cons.prems obtain ss'' where t: "take_least ss = Some (m, ss'')" and e: "ss' = s # ss''"
      by auto
    from Cons.IH [OF t] e Nil show ?thesis by (simp add: tagged_def)
  next
    case (Cons e es)
    show ?thesis
    proof (cases "take_least ss")
      case None
      with Cons Cons.prems show ?thesis by (auto simp: tagged_def)
    next
      case (Some r)
      obtain m2 ss2 where r: "r = (m2, ss2)" by (cases r)
      from Cons.IH [of m2 ss2] Some r
      have ih: "mset (concat (map tagged ss)) = add_mset m2 (mset (concat (map tagged ss2)))"
        by simp
      show ?thesis
      proof (cases "key_le (merge_key (priority s, e)) (merge_key m2)")
        case True
        with Cons Some r Cons.prems show ?thesis by (auto simp: tagged_def)
      next
        case False
        with Cons Some r Cons.prems have "m = m2" "ss' = s # ss2" by auto
        with ih show ?thesis by simp
      qed
    qed
  qed
qed

lemma take_least_ordered:
  "take_least ss = Some (m, ss') \<Longrightarrow> \<forall>s \<in> set ss. ordered_source s \<Longrightarrow>
   \<forall>s \<in> set ss'. ordered_source s"
proof (induction ss arbitrary: m ss')
  case Nil
  then show ?case by simp
next
  case (Cons s ss)
  from Cons.prems(2) have os: "ordered_source s" and rest: "\<forall>s \<in> set ss. ordered_source s"
    by simp_all
  show ?case
  proof (cases "pending s")
    case Nil
    with Cons.prems(1) obtain ss'' where t: "take_least ss = Some (m, ss'')" and e: "ss' = s # ss''"
      by auto
    from Cons.IH [OF t rest] e os show ?thesis by simp
  next
    case (Cons e es)
    with os have adv: "ordered_source (s\<lparr>pending := es\<rparr>)"
      by (simp add: ordered_source_def)
    show ?thesis
    proof (cases "take_least ss")
      case None
      with Cons Cons.prems(1) adv rest show ?thesis by auto
    next
      case (Some r)
      obtain m2 ss2 where r: "r = (m2, ss2)" by (cases r)
      from Cons.IH [of m2 ss2] Some r rest have ih: "\<forall>s \<in> set ss2. ordered_source s" by simp
      show ?thesis
      proof (cases "key_le (merge_key (priority s, e)) (merge_key m2)")
        case True
        with Cons Some r Cons.prems(1) adv rest show ?thesis by auto
      next
        case False
        with Cons Some r Cons.prems(1) have "ss' = s # ss2" by auto
        with ih os show ?thesis by simp
      qed
    qed
  qed
qed

lemma ordered_head_least:
  assumes "ordered_source s" and "pending s = e # es" and "x \<in> set (tagged s)"
  shows "key_le (merge_key (priority s, e)) (merge_key x)"
proof -
  from assms(3) obtain e' where x: "x = (priority s, e')" and e': "e' \<in> set (pending s)"
    by (auto simp: tagged_def)
  from assms(1,2) e' have "timestamp e \<le> timestamp e'"
    by (auto simp: ordered_source_def)
  with x show ?thesis by (auto simp: key_le_def merge_key_def)
qed

lemma take_least_least:
  "take_least ss = Some (m, ss') \<Longrightarrow> \<forall>s \<in> set ss. ordered_source s \<Longrightarrow>
   x \<in> set (concat (map tagged ss)) \<Longrightarrow> key_le (merge_key m) (merge_key x)"
proof (induction ss arbitrary: m ss')
  case Nil
  then show ?case by simp
next
  case (Cons s ss)
  from Cons.prems(2) have os: "ordered_source s" and rest: "\<forall>s \<in> set ss. ordered_source s"
    by simp_all
  from Cons.prems(3) consider (here) "x \<in> set (tagged s)" | (there) "x \<in> set (concat (map tagged ss))"
    by auto
  then show ?case
  proof cases
    case here
    then obtain e es where p: "pending s = e # es" by (cases "pending s") (auto simp: tagged_def)
    from ordered_head_least [OF os p here]
    have hx: "key_le (merge_key (priority s, e)) (merge_key x)" .
    show ?thesis
    proof (cases "take_least ss")
      case None
      with p Cons.prems(1) hx show ?thesis by auto
    next
      case (Some r)
      obtain m2 ss2 where r: "r = (m2, ss2)" by (cases r)
      show ?thesis
      proof (cases "key_le (merge_key (priority s, e)) (merge_key m2)")
        case True
        with p Some r Cons.prems(1) hx show ?thesis by auto
      next
        case False
        with p Some r Cons.prems(1) have "m = m2" by auto
        with False hx show ?thesis using key_le_total key_le_trans by blast
      qed
    qed
  next
    case there
    then have "concat (map tagged ss) \<noteq> []" by (metis empty_iff empty_set)
    with take_least_None have "take_least ss \<noteq> None" by blast
    then obtain m2 ss2 where t: "take_least ss = Some (m2, ss2)" by auto
    from Cons.IH [OF t rest there] have ih: "key_le (merge_key m2) (merge_key x)" .
    show ?thesis
    proof (cases "pending s")
      case Nil
      with t Cons.prems(1) ih show ?thesis by auto
    next
      case (Cons e es)
      show ?thesis
      proof (cases "key_le (merge_key (priority s, e)) (merge_key m2)")
        case True
        with Cons t Cons.prems(1) have "m = (priority s, e)" by auto
        with True ih show ?thesis using key_le_trans by blast
      next
        case False
        with Cons t Cons.prems(1) ih show ?thesis by auto
      qed
    qed
  qed
qed

lemma mset_merge_sources: "mset (merge_sources ss) = mset (concat (map tagged ss))"
proof (induction ss rule: merge_sources.induct)
  case (1 ss)
  show ?case
  proof (cases "take_least ss")
    case None
    then show ?thesis by (simp add: merge_sources.simps [of ss] take_least_None)
  next
    case (Some r)
    obtain m ss' where r: "r = (m, ss')" by (cases r)
    from "1.IH" [OF Some r [symmetric]] take_least_mset [of ss m ss'] Some r
    show ?thesis by (simp add: merge_sources.simps [of ss])
  qed
qed

lemma sorted_merge_sources:
  "\<forall>s \<in> set ss. ordered_source s \<Longrightarrow>
   sorted_wrt (\<lambda>a b. key_le (merge_key a) (merge_key b)) (merge_sources ss)"
proof (induction ss rule: merge_sources.induct)
  case (1 ss)
  show ?case
  proof (cases "take_least ss")
    case None
    then show ?thesis by (simp add: merge_sources.simps [of ss])
  next
    case (Some r)
    obtain m ss' where r: "r = (m, ss')" by (cases r)
    with Some have t: "take_least ss = Some (m, ss')" by simp
    from take_least_ordered [OF t "1.prems"] have o': "\<forall>s \<in> set ss'. ordered_source s" .
    from "1.IH" [OF Some r [symmetric] o']
    have ih: "sorted_wrt (\<lambda>a b. key_le (merge_key a) (merge_key b)) (merge_sources ss')" .
    have "key_le (merge_key m) (merge_key x)" if "x \<in> set (merge_sources ss')" for x
    proof -
      from that have "x \<in># mset (merge_sources ss')" by simp
      then have "x \<in># mset (concat (map tagged ss'))" by (simp only: mset_merge_sources)
      then have "x \<in># mset (concat (map tagged ss))"
        by (simp only: take_least_mset [OF t]) simp
      then have "x \<in> set (concat (map tagged ss))" by (simp only: set_mset_mset)
      from take_least_least [OF t "1.prems" this] show ?thesis .
    qed
    with ih t show ?thesis by (simp add: merge_sources.simps [of ss])
  qed
qed

text \<open>
  C4. For any list of per-contract sources whose own timestamps do not decrease, the merged
  stream has non-decreasing timestamps over its whole length, of two merged events with the
  same timestamp the one that comes first is from a source of equal or better priority, and
  the merged stream holds exactly the events of the sources.
\<close>

theorem merged_stream_monotonic:
  assumes "\<forall>s \<in> set ss. sorted (map timestamp (pending s))"
  shows "sorted (map (\<lambda>m. timestamp (snd m)) (merge_sources ss)) \<and>
         sorted_wrt (\<lambda>a b. timestamp (snd a) = timestamp (snd b) \<longrightarrow> fst a \<le> fst b)
           (merge_sources ss) \<and>
         mset (merge_sources ss) =
           mset (concat (map (\<lambda>s. map (Pair (priority s)) (pending s)) ss))"
proof -
  from assms have "\<forall>s \<in> set ss. ordered_source s" by (simp add: ordered_source_def)
  from sorted_merge_sources [OF this]
  have s: "sorted_wrt (\<lambda>a b. key_le (merge_key a) (merge_key b)) (merge_sources ss)" .
  have a: "sorted (map (\<lambda>m. timestamp (snd m)) (merge_sources ss))"
    unfolding sorted_map
    by (rule sorted_wrt_mono_rel [OF _ s]) (auto simp: key_le_def merge_key_def)
  have b: "sorted_wrt (\<lambda>a b. timestamp (snd a) = timestamp (snd b) \<longrightarrow> fst a \<le> fst b)
           (merge_sources ss)"
    by (rule sorted_wrt_mono_rel [OF _ s]) (auto simp: key_le_def merge_key_def)
  have c: "mset (merge_sources ss) =
           mset (concat (map (\<lambda>s. map (Pair (priority s)) (pending s)) ss))"
    using mset_merge_sources [of ss] by (simp add: tagged_def [abs_def])
  from a b c show ?thesis by blast
qed

lemma merge_example:
  "merge_sources [deferred_month, front_month] =
     [(0, L1Event 1 Last 1700025 2), (1, L1Event 1 Last 1710000 4),
      (1, L1Event 3 Last 1710025 1), (0, L1Event 5 Last 1700050 1)]"
  by (simp add: merge_sources.simps front_month_def deferred_month_def key_le_def merge_key_def)

theorem merged_stream_monotonic_witness:
  "map (\<lambda>m. timestamp (snd m)) (merge_sources [deferred_month, front_month]) = [1, 1, 3, 5] \<and>
   map fst (merge_sources [deferred_month, front_month]) = [0, 1, 1, 0] \<and>
   sorted (map (\<lambda>m. timestamp (snd m)) (merge_sources [deferred_month, front_month]))"
proof -
  have h: "\<forall>s \<in> set [deferred_month, front_month]. sorted (map timestamp (pending s))"
    by (simp add: front_month_def deferred_month_def)
  from merged_stream_monotonic [OF h] show ?thesis
    by (simp add: merge_example)
qed

subsection \<open>The order book engine\<close>

lemma best_level_None: "best_level better lvs = None \<longleftrightarrow> lvs = []"
  by (cases lvs) (auto split: option.splits)

lemma not_crossed_iff:
  "\<not> crossed b \<longleftrightarrow>
     (resting (bids b) \<noteq> [] \<and> resting (asks b) \<noteq> [] \<longrightarrow>
        (\<exists>bid ask. best_bid b = Some bid \<and> best_ask b = Some ask \<and> price bid \<le> price ask))"
proof (cases "best_bid b")
  case None
  then show ?thesis by (simp add: crossed_def best_bid_def best_level_None)
next
  case (Some bid)
  note bid = this
  show ?thesis
  proof (cases "best_ask b")
    case None
    then show ?thesis by (simp add: crossed_def best_ask_def best_level_None split: option.splits)
  next
    case (Some ask)
    with bid have "resting (bids b) \<noteq> []" "resting (asks b) \<noteq> []"
      by (auto simp: best_bid_def best_ask_def)
    with bid Some show ?thesis by (auto simp: crossed_def)
  qed
qed

lemma apply_event_keeps:
  "\<not> crossed b \<Longrightarrow> apply_event policy ev b = (b', res) \<Longrightarrow> res \<noteq> Fault CrossedBookFault \<or> policy = Lenient
     \<Longrightarrow> \<not> crossed b'"
  by (auto simp: apply_event_def split: option.splits if_splits ValidationPolicy.splits)

lemma checkpoints_not_crossed:
  "\<not> crossed b \<Longrightarrow> c \<in> set (checkpoints policy evs b) \<Longrightarrow> \<not> crossed c"
proof (induction evs arbitrary: b)
  case Nil
  then show ?case by simp
next
  case (Cons ev evs)
  obtain b' res where ap: "apply_event policy ev b = (b', res)" by (cases "apply_event policy ev b")
  show ?case
  proof (cases res)
    case Success
    with ap Cons.prems(1) have nb: "\<not> crossed b'" using apply_event_keeps by blast
    from Cons.prems(2) ap Success have "c = b' \<or> c \<in> set (checkpoints policy evs b')" by simp
    with nb Cons.IH [OF nb] show ?thesis by blast
  next
    case (Fault f)
    show ?thesis
    proof (cases "fatal policy f")
      case True
      with Cons.prems(2) ap Fault show ?thesis by simp
    next
      case False
      then have "f \<noteq> CrossedBookFault \<or> policy = Lenient"
        by (cases f; cases policy) simp_all
      with ap Fault Cons.prems(1) have nb: "\<not> crossed b'" using apply_event_keeps by blast
      from Cons.prems(2) ap Fault False have "c = b' \<or> c \<in> set (checkpoints policy evs b')" by simp
      with nb Cons.IH [OF nb] show ?thesis by blast
    qed
  qed
qed

lemma empty_book_not_crossed: "\<not> crossed empty_book"
  by (simp add: crossed_def empty_book_def best_bid_def resting_def)

text \<open>
  C2. For every event sequence, the book after each event that the engine applies (from the
  empty book, under either policy, up to a fatal fault) has
  \<open>best_bid.price \<le> best_ask.price\<close> whenever both sides are non-empty. A mutation that
  would cross the book is flagged with \<open>CrossedBookFault\<close>, under \<open>Strict\<close> with the
  mutated book left as it is, under \<open>Lenient\<close> with the prior book restored; a mutation that
  does not cross the book is applied as it is.
\<close>

theorem best_bid_le_best_ask:
  "(\<forall>c \<in> set (checkpoints policy evs empty_book).
      resting (bids c) \<noteq> [] \<and> resting (asks c) \<noteq> [] \<longrightarrow>
        (\<exists>bid ask. best_bid c = Some bid \<and> best_ask c = Some ask \<and> price bid \<le> price ask)) \<and>
   (\<forall>b b'. mutate ev b = Some b' \<and> crossed b' \<longrightarrow>
      apply_event Strict ev b = (b', Fault CrossedBookFault) \<and>
      apply_event Lenient ev b = (b, Fault CrossedBookFault)) \<and>
   (\<forall>b b'. mutate ev b = Some b' \<and> \<not> crossed b' \<longrightarrow> apply_event policy ev b = (b', Success))"
proof -
  have "\<forall>c \<in> set (checkpoints policy evs empty_book). \<not> crossed c"
    using checkpoints_not_crossed [OF empty_book_not_crossed] by blast
  then have checked: "\<forall>c \<in> set (checkpoints policy evs empty_book).
      resting (bids c) \<noteq> [] \<and> resting (asks c) \<noteq> [] \<longrightarrow>
        (\<exists>bid ask. best_bid c = Some bid \<and> best_ask c = Some ask \<and> price bid \<le> price ask)"
    using not_crossed_iff by blast
  have flagged: "\<forall>b b'. mutate ev b = Some b' \<and> crossed b' \<longrightarrow>
      apply_event Strict ev b = (b', Fault CrossedBookFault) \<and>
      apply_event Lenient ev b = (b, Fault CrossedBookFault)"
    by (simp add: apply_event_def)
  have kept: "\<forall>b b'. mutate ev b = Some b' \<and> \<not> crossed b' \<longrightarrow>
      apply_event policy ev b = (b', Success)"
    by (simp add: apply_event_def)
  from checked flagged kept show ?thesis by blast
qed

lemma example_checkpoints:
  "checkpoints Lenient example_events empty_book =
     [empty_book\<lparr>bids := [Some bid_5]\<rparr>, quoted_book, quoted_book]"
  by (simp add: example_events_def quoted_book_def apply_event_def empty_book_def crossed_def best_bid_def best_ask_def
     resting_def ladder_add_def level_at_def side_ladder_def set_side_ladder_def bid_5_def ask_3_def bid_high_def)

lemma example_strict:
  "checkpoints Strict example_events empty_book =
     [empty_book\<lparr>bids := [Some bid_5]\<rparr>, quoted_book] \<and>
   apply_event Strict (L2Event 3 BidSide Add 0 bid_high) quoted_book =
     (quoted_book\<lparr>bids := [Some bid_high, Some bid_5]\<rparr>, Fault CrossedBookFault)"
  by (simp add: example_events_def quoted_book_def apply_event_def empty_book_def crossed_def best_bid_def best_ask_def
     resting_def ladder_add_def level_at_def side_ladder_def set_side_ladder_def bid_5_def ask_3_def bid_high_def)

theorem best_bid_le_best_ask_witness:
  "quoted_book \<in> set (checkpoints Lenient example_events empty_book) \<and>
   resting (bids quoted_book) \<noteq> [] \<and> resting (asks quoted_book) \<noteq> [] \<and>
   (\<exists>bid ask. best_bid quoted_book = Some bid \<and> best_ask quoted_book = Some ask \<and>
      price bid \<le> price ask) \<and>
   mutate (L2Event 3 BidSide Add 0 bid_high) quoted_book =
     Some (quoted_book\<lparr>bids := [Some bid_high, Some bid_5]\<rparr>) \<and>
   crossed (quoted_book\<lparr>bids := [Some bid_high, Some bid_5]\<rparr>) \<and>
   apply_event Lenient (L2Event 3 BidSide Add 0 bid_high) quoted_book =
     (quoted_book, Fault CrossedBookFault)"
proof -
  have m: "quoted_book \<in> set (checkpoints Lenient example_events empty_book)"
    by (simp add: example_checkpoints)
  have r: "resting (bids quoted_book) \<noteq> []" "resting (asks quoted_book) \<noteq> []"
    by (simp_all add: quoted_book_def resting_def)
  have mu: "mutate (L2Event 3 BidSide Add 0 bid_high) quoted_book =
     Some (quoted_book\<lparr>bids := [Some bid_high, Some bid_5]\<rparr>)"
    by (simp add: quoted_book_def ladder_add_def level_at_def side_ladder_def set_side_ladder_def)
  have cr: "crossed (quoted_book\<lparr>bids := [Some bid_high, Some bid_5]\<rparr>)"
    by (simp add: quoted_book_def crossed_def best_bid_def best_ask_def resting_def bid_5_def ask_3_def bid_high_def)
  from best_bid_le_best_ask [of Lenient example_events "L2Event 3 BidSide Add 0 bid_high"] m r mu cr
  show ?thesis by blast
qed

lemma mutate_stale:
  "level_at (side_ladder s b) d = None \<Longrightarrow> op = Update \<or> op = Remove \<Longrightarrow>
   mutate (L2Event ts s op d lv) b = None"
  by (auto simp: ladder_update_def ladder_remove_def)

lemma replay_lenient_not_aborted: "state (replay_loop Lenient inputs r) \<noteq> Aborted f"
proof (induction inputs arbitrary: r)
  case Nil
  then show ?case by simp
next
  case (Cons i inputs)
  show ?case
  proof (cases i)
    case CancelSignal
    then show ?thesis by simp
  next
    case (Next ev)
    obtain b' res where ap: "apply_event Lenient ev (book r) = (b', res)"
      by (cases "apply_event Lenient ev (book r)")
    show ?thesis
    proof (cases res)
      case Success
      with ap Next Cons.IH show ?thesis by simp
    next
      case (Fault g)
      have "\<not> fatal Lenient g" by (cases g) simp_all
      with ap Next Fault Cons.IH show ?thesis by simp
    qed
  qed
qed

text \<open>
  C3. For every book and every Update or Remove event whose depth has no level, applying the
  event leaves the book unchanged and raises \<open>StaleUpdateFault\<close>, which is not fatal under
  any policy: the loop records the fault and goes on with the rest of the stream, and under
  \<open>Lenient\<close> the run does not end as \<open>Aborted\<close>.
\<close>

theorem stale_update_is_noop:
  assumes "level_at (side_ladder s (book r)) d = None" and "op = Update \<or> op = Remove"
  shows "apply_event policy (L2Event ts s op d lv) (book r) = (book r, Fault StaleUpdateFault) \<and>
         \<not> fatal policy StaleUpdateFault \<and>
         replay_loop policy (Next (L2Event ts s op d lv) # rest) r =
           replay_loop policy rest (r\<lparr>faults := faults r @ [StaleUpdateFault]\<rparr>) \<and>
         (\<forall>f. state (replay_loop Lenient (Next (L2Event ts s op d lv) # rest) r) \<noteq> Aborted f)"
proof -
  have ap: "apply_event policy (L2Event ts s op d lv) (book r) = (book r, Fault StaleUpdateFault)"
    by (simp add: apply_event_def mutate_stale [OF assms])
  then have continued: "replay_loop policy (Next (L2Event ts s op d lv) # rest) r =
      replay_loop policy rest (r\<lparr>faults := faults r @ [StaleUpdateFault]\<rparr>)"
    by simp
  have not_fatal: "\<not> fatal policy StaleUpdateFault" by simp
  have not_aborted: "\<forall>f. state (replay_loop Lenient (Next (L2Event ts s op d lv) # rest) r) \<noteq> Aborted f"
    using replay_lenient_not_aborted by blast
  from ap not_fatal continued not_aborted show ?thesis by blast
qed

theorem stale_update_is_noop_witness:
  "replay_loop Lenient [Next (L2Event 1 BidSide Remove 2 bid_5)] start_replay =
     \<lparr>state = Completed, book = empty_book, faults = [StaleUpdateFault]\<rparr>"
proof -
  have h: "level_at (side_ladder BidSide (book start_replay)) 2 = None"
    by (simp add: start_replay_def empty_book_def side_ladder_def level_at_def)
  from stale_update_is_noop [OF h, of Remove Lenient 1 bid_5 "[]"]
  show ?thesis by (simp add: start_replay_def)
qed

subsection \<open>The result of a backtest run\<close>

lemma apply_to_run_keeps:
  "apply_to_run policy ev r = (r', x) \<Longrightarrow> results r' = results r \<and> processed r' = processed r"
  by (auto simp: apply_to_run_def split: prod.splits apply_result.splits)

lemma apply_to_run_cause:
  "apply_to_run policy ev r = (r', Some e) \<Longrightarrow> \<exists>f. e = BookIntegrity f \<and> fatal policy f"
  by (auto simp: apply_to_run_def split: prod.splits apply_result.splits if_splits)

lemma run_loop_processed_mono: "processed r \<le> processed (run_loop policy strategy stream r)"
proof (induction policy strategy stream r rule: run_loop.induct)
  case (4 policy strategy vf rest r)
  then show ?case by (cases policy) auto
next
  case (5 policy strategy ev rest r)
  obtain r' x where a: "apply_to_run policy ev r = (r', x)" by (cases "apply_to_run policy ev r")
  from apply_to_run_keeps [OF a] have k: "processed r' = processed r" by simp
  show ?case
  proof (cases x)
    case (Some e)
    with a k show ?thesis by simp
  next
    case None
    show ?thesis
    proof (cases "strategy ev (run_book r') (results r')")
      case None
      with a k \<open>x = None\<close> show ?thesis by simp
    next
      case (Some res)
      from "5.IH" [OF a [symmetric] \<open>x = None\<close> Some] a k \<open>x = None\<close> Some show ?thesis by simp
    qed
  qed
qed simp_all

lemma run_loop_summary:
  "let R = run_loop policy strategy stream r; n = processed R - processed r in
     n \<le> length stream \<and>
     (run_status R = StatusCompleted \<or> run_status R = StatusCancelled \<or>
      (\<exists>e. run_status R = StatusAborted e)) \<and>
     (run_status R = StatusCompleted \<longrightarrow> n = length stream) \<and>
     (run_status R = StatusCancelled \<longrightarrow> n < length stream \<and> stream ! n = CancelRequested) \<and>
     (\<forall>e. run_status R = StatusAborted e \<longrightarrow> n < length stream \<and> abort_cause policy (stream ! n) e) \<and>
     results (run_loop policy strategy (take n stream) r) = results R"
proof (induction policy strategy stream r rule: run_loop.induct)
  case (1 policy strategy r)
  then show ?case by simp
next
  case (2 policy strategy rest r)
  then show ?case by simp
next
  case (3 policy strategy e rest r)
  then show ?case by simp
next
  case (4 policy strategy vf rest r)
  show ?case
  proof (cases policy)
    case Strict
    then show ?thesis by simp
  next
    case Lenient
    let ?r1 = "r\<lparr>counters := counters r @ [Validation vf], processed := Suc (processed r)\<rparr>"
    let ?R = "run_loop policy strategy rest ?r1"
    from run_loop_processed_mono [of ?r1 policy strategy rest]
    have m: "Suc (processed r) \<le> processed ?R" by simp
    then have n: "processed ?R - processed r = Suc (processed ?R - Suc (processed r))" by simp
    from "4.IH" [OF Lenient] have ih:
      "let R = ?R; n = processed R - Suc (processed r) in
         n \<le> length rest \<and>
         (run_status R = StatusCompleted \<or> run_status R = StatusCancelled \<or>
          (\<exists>e. run_status R = StatusAborted e)) \<and>
         (run_status R = StatusCompleted \<longrightarrow> n = length rest) \<and>
         (run_status R = StatusCancelled \<longrightarrow> n < length rest \<and> rest ! n = CancelRequested) \<and>
         (\<forall>e. run_status R = StatusAborted e \<longrightarrow> n < length rest \<and> abort_cause policy (rest ! n) e) \<and>
         results (run_loop policy strategy (take n rest) ?r1) = results R"
      by simp
    have step: "run_loop policy strategy (Faulty vf # rest) r = ?R" using Lenient by simp
    have pre: "run_loop policy strategy (take (Suc k) (Faulty vf # rest)) r =
               run_loop policy strategy (take k rest) ?r1" for k
      using Lenient by simp
    show ?thesis
      unfolding step Let_def n pre using ih unfolding Let_def by simp
  qed
next
  case (5 policy strategy ev rest r)
  obtain r' x where a: "apply_to_run policy ev r = (r', x)" by (cases "apply_to_run policy ev r")
  from apply_to_run_keeps [OF a] have k: "processed r' = processed r" "results r' = results r"
    by simp_all
  show ?case
  proof (cases x)
    case (Some e)
    with apply_to_run_cause a have c: "\<exists>f. e = BookIntegrity f \<and> fatal policy f" by blast
    from Some a have step: "run_loop policy strategy (Accepted ev # rest) r = r'\<lparr>run_status := StatusAborted e\<rparr>"
      by simp
    show ?thesis unfolding step Let_def using c k by simp
  next
    case None
    note xn = this
    show ?thesis
    proof (cases "strategy ev (run_book r') (results r')")
      case None
      with xn a have step: "run_loop policy strategy (Accepted ev # rest) r =
          r'\<lparr>run_status := StatusAborted StrategyError\<rparr>" by simp
      show ?thesis unfolding step Let_def using k by simp
    next
      case (Some res)
      let ?r1 = "r'\<lparr>results := res, processed := Suc (processed r')\<rparr>"
      let ?R = "run_loop policy strategy rest ?r1"
      from run_loop_processed_mono [of ?r1 policy strategy rest] k
      have m: "Suc (processed r) \<le> processed ?R" by simp
      then have n: "processed ?R - processed r = Suc (processed ?R - Suc (processed r))" by simp
      from "5.IH" [OF a [symmetric] xn Some] k have ih:
        "let R = ?R; n = processed R - Suc (processed r) in
           n \<le> length rest \<and>
           (run_status R = StatusCompleted \<or> run_status R = StatusCancelled \<or>
            (\<exists>e. run_status R = StatusAborted e)) \<and>
           (run_status R = StatusCompleted \<longrightarrow> n = length rest) \<and>
           (run_status R = StatusCancelled \<longrightarrow> n < length rest \<and> rest ! n = CancelRequested) \<and>
           (\<forall>e. run_status R = StatusAborted e \<longrightarrow> n < length rest \<and> abort_cause policy (rest ! n) e) \<and>
           results (run_loop policy strategy (take n rest) ?r1) = results R"
        by simp
      have step: "run_loop policy strategy (Accepted ev # rest) r = ?R" using a xn Some by simp
      have pre: "run_loop policy strategy (take (Suc j) (Accepted ev # rest)) r =
                 run_loop policy strategy (take j rest) ?r1" for j
        using a xn Some by simp
      show ?thesis
        unfolding step Let_def n pre using ih unfolding Let_def by simp
    qed
  qed
qed

text \<open>
  C5. Every backtest run returns a structured result whose status is exactly one of
  Completed, Aborted (with its reason) or Cancelled, never Idle or Running. A completed run
  has processed the whole stream, so its results are the full ones; a cancelled run stopped
  at the cancellation signal and an aborted run at the item that gives the reason, and their
  results are the partial ones, those of the items processed before the stop.
\<close>

theorem run_result_is_terminal:
  "let R = run_backtest policy strategy initial stream; n = processed R in
     (run_status R = StatusCompleted \<or> run_status R = StatusCancelled \<or>
      (\<exists>e. run_status R = StatusAborted e)) \<and>
     n \<le> length stream \<and>
     (run_status R = StatusCompleted \<longrightarrow> n = length stream) \<and>
     (run_status R = StatusCancelled \<longrightarrow> n < length stream \<and> stream ! n = CancelRequested) \<and>
     (\<forall>e. run_status R = StatusAborted e \<longrightarrow> n < length stream \<and> abort_cause policy (stream ! n) e) \<and>
     results R = results (run_backtest policy strategy initial (take n stream))"
  using run_loop_summary [of policy strategy stream "(idle_run initial)\<lparr>run_status := StatusRunning\<rparr>"]
  unfolding run_backtest_def Let_def by (simp add: idle_run_def)

lemma example_runs:
  "run_backtest Lenient example_strategy [] example_stream =
     \<lparr>run_status = StatusCancelled, run_book = empty_book\<lparr>bids := [Some bid_5]\<rparr>, results = [1, 3],
      counters = [Validation NegativeVolume, BookIntegrity StaleUpdateFault], processed = 3\<rparr>"
  "run_backtest Strict example_strategy [] example_stream =
     \<lparr>run_status = StatusAborted (Validation NegativeVolume),
      run_book = empty_book\<lparr>bids := [Some bid_5]\<rparr>, results = [1],
      counters = [Validation NegativeVolume], processed = 1\<rparr>"
  "run_backtest Lenient example_strategy [] (take 3 example_stream) =
     \<lparr>run_status = StatusCompleted, run_book = empty_book\<lparr>bids := [Some bid_5]\<rparr>, results = [1, 3],
      counters = [Validation NegativeVolume, BookIntegrity StaleUpdateFault], processed = 3\<rparr>"
  by (simp_all add: run_backtest_def idle_run_def example_stream_def example_strategy_def
      apply_to_run_def apply_event_def empty_book_def crossed_def best_bid_def best_ask_def
      resting_def ladder_add_def ladder_remove_def level_at_def side_ladder_def set_side_ladder_def bid_5_def)

theorem run_result_is_terminal_witness:
  "run_status (run_backtest Lenient example_strategy [] example_stream) = StatusCancelled \<and>
   processed (run_backtest Lenient example_strategy [] example_stream) = 3 \<and>
   example_stream ! 3 = CancelRequested \<and>
   results (run_backtest Lenient example_strategy [] example_stream) = [1, 3] \<and>
   run_status (run_backtest Strict example_strategy [] example_stream) =
     StatusAborted (Validation NegativeVolume) \<and>
   abort_cause Strict (example_stream ! 1) (Validation NegativeVolume) \<and>
   run_status (run_backtest Lenient example_strategy [] (take 3 example_stream)) = StatusCompleted \<and>
   processed (run_backtest Lenient example_strategy [] (take 3 example_stream)) =
     length (take 3 example_stream)"
proof -
  note l = run_result_is_terminal [of Lenient example_strategy "[]" example_stream]
  note s = run_result_is_terminal [of Strict example_strategy "[]" example_stream]
  note c = run_result_is_terminal [of Lenient example_strategy "[]" "take 3 example_stream"]
  from l s c show ?thesis
    unfolding Let_def by (simp add: example_runs)
qed

text \<open>
  The schema's names of the states of a run are statuses that \<open>valid_status\<close> admits, and
  the names of the three terminal states are \<open>completed\<close>, \<open>failed\<close> and \<open>cancelled\<close>.
\<close>

lemma status_column_valid:
  "valid_status (status_column s) \<and>
   (s \<noteq> StatusIdle \<and> s \<noteq> StatusRunning \<longleftrightarrow>
      status_column s \<in> {''completed'', ''failed'', ''cancelled''})"
  by (cases s) (simp_all add: valid_status_def)

end
